theory Spec2Isabelle
  imports Main "HOL-Library.Sublist" "HOL-Library.Multiset"
begin

section \<open>Reloader: the upgrade handler (internal/pkg/handler/upgrade.go)\<close>

text \<open>
  A shallow embedding of the reload-decision engine of \<^verbatim>\<open>upgrade.go\<close>: the resource
  usage scanner (\<^verbatim>\<open>getContainerUsingResource\<close>), the env-var update strategy
  (\<^verbatim>\<open>updateContainerEnvVars\<close>), the trigger evaluator
  (\<^verbatim>\<open>PerformActionOnSingleItem\<close>) and the delayed-upgrade coalescer
  (\<^verbatim>\<open>PerformDelayedUpgrade\<close>, the registry \<^verbatim>\<open>DelayedUpgrades\<close>).

  Go strings are byte strings (\<^typ>\<open>string\<close>). A Go pointer into the slice of regular
  containers (\<^verbatim>\<open>&containers[i]\<close>) is the index \<open>i\<close>; \<^verbatim>\<open>nil\<close> is \<open>None\<close>. A run-time
  panic is a value \<open>Inl p\<close>. The workload object is mutated in place by the source; here
  every function that mutates it returns the new object. Calls to collaborators outside
  the file (the strategy, the adapter's update function, metrics, events, the alert
  webhook, the timer goroutine) are recorded as a list of effects, in call order.
  Logging is not modelled, and neither is \<^verbatim>\<open>deplayed_upgrade.go\<close>, whose registry
  \<^verbatim>\<open>DelayedUpdates\<close> the upgrade handler does not use.
\<close>

subsection \<open>Go library functions used by the handler\<close>

text \<open>\<^verbatim>\<open>strings.Split(s, ",")\<close> for a one-byte separator: always at least one field.\<close>

fun Split :: "string \<Rightarrow> char \<Rightarrow> string list" where
  "Split [] sep = [[]]"
| "Split (c # cs) sep =
     (if c = sep then [] # Split cs sep
      else (case Split cs sep of
              [] \<Rightarrow> [[c]]
            | f # fs \<Rightarrow> (c # f) # fs))"

text \<open>
  \<^verbatim>\<open>strings.TrimSpace\<close> removes the leading and trailing runes for which
  \<^verbatim>\<open>unicode.IsSpace\<close> holds: the six ASCII ones, and U+0085, U+00A0, U+1680,
  U+2000..U+200A, U+2028, U+2029, U+202F, U+205F, U+3000, which stand in a Go string as
  their UTF-8 byte sequences.
\<close>

definition asciiSpace :: "char \<Rightarrow> bool" where
  "asciiSpace c =
     (c = CHR 0x09 \<or> c = CHR 0x0A \<or> c = CHR 0x0B \<or> c = CHR 0x0C \<or> c = CHR 0x0D \<or> c = CHR 0x20)"

definition unicodeSpaces :: "string list" where
  "unicodeSpaces =
     [[CHR 0xC2, CHR 0x85], [CHR 0xC2, CHR 0xA0], [CHR 0xE1, CHR 0x9A, CHR 0x80],
      [CHR 0xE2, CHR 0x80, CHR 0x80], [CHR 0xE2, CHR 0x80, CHR 0x81],
      [CHR 0xE2, CHR 0x80, CHR 0x82], [CHR 0xE2, CHR 0x80, CHR 0x83],
      [CHR 0xE2, CHR 0x80, CHR 0x84], [CHR 0xE2, CHR 0x80, CHR 0x85],
      [CHR 0xE2, CHR 0x80, CHR 0x86], [CHR 0xE2, CHR 0x80, CHR 0x87],
      [CHR 0xE2, CHR 0x80, CHR 0x88], [CHR 0xE2, CHR 0x80, CHR 0x89],
      [CHR 0xE2, CHR 0x80, CHR 0x8A], [CHR 0xE2, CHR 0x80, CHR 0xA8],
      [CHR 0xE2, CHR 0x80, CHR 0xA9], [CHR 0xE2, CHR 0x80, CHR 0xAF],
      [CHR 0xE2, CHR 0x81, CHR 0x9F], [CHR 0xE3, CHR 0x80, CHR 0x80]]"

fun dropLeading :: "string list \<Rightarrow> string \<Rightarrow> string" where
  "dropLeading us [] = []"
| "dropLeading us (c # cs) =
     (if asciiSpace c then dropLeading us cs
      else (case find (\<lambda>u. prefix u (c # cs)) us of
              Some u \<Rightarrow> dropLeading us (drop (length u - 1) cs)
            | None \<Rightarrow> c # cs))"

definition TrimSpace :: "string \<Rightarrow> string" where
  "TrimSpace s = rev (dropLeading (map rev unicodeSpaces) (rev (dropLeading unicodeSpaces s)))"

text \<open>
  \<^verbatim>\<open>strconv.ParseBool\<close>: \<open>None\<close> is the error return (the handler drops the error and
  reads the value \<^verbatim>\<open>false\<close>).
\<close>

definition ParseBool :: "string \<Rightarrow> bool option" where
  "ParseBool s =
     (if s \<in> set [''1'', ''t'', ''T'', ''TRUE'', ''true'', ''True''] then Some True
      else if s \<in> set [''0'', ''f'', ''F'', ''FALSE'', ''false'', ''False''] then Some False
      else None)"

definition parsedTrue :: "string \<Rightarrow> bool" where
  "parsedTrue s = (case ParseBool s of Some b \<Rightarrow> b | None \<Rightarrow> False)"

text \<open>
  \<^verbatim>\<open>regexp.MustCompile(p).Match(t)\<close> is a parameter of the evaluator, of type
  \<open>string \<Rightarrow> string \<Rightarrow> rx_result\<close>: the library is not part of the repository.
\<close>

datatype rx_result = Match | NoMatch | CompilePanic

subsection \<open>Data model\<close>

datatype Result = Updated | NotUpdated | NoEnvVarFound | NoContainerFound

datatype panic = IndexOutOfRange | RegexpCompile | NilItem

text \<open>
  The fields of the Kubernetes API types (\<^verbatim>\<open>k8s.io/api/core/v1\<close>) that the handler reads.
  A nil pointer to a source is \<open>None\<close>; a source is its referenced object's name.
\<close>

record VolumeProjection =
  proj_ConfigMap :: "string option"
  proj_Secret :: "string option"

record Volume =
  vol_Name :: string
  vol_ConfigMap :: "string option"
  vol_Secret :: "string option"
  vol_Projected :: "VolumeProjection list option"

record VolumeMount =
  vm_Name :: string

record EnvVarSource =
  SecretKeyRef :: "string option"
  ConfigMapKeyRef :: "string option"

record EnvVar =
  env_Name :: string
  env_Value :: string
  ValueFrom :: "EnvVarSource option"

record EnvFromSource =
  SecretRef :: "string option"
  ConfigMapRef :: "string option"

record Container =
  ctr_Name :: string
  VolumeMounts :: "VolumeMount list"
  Env :: "EnvVar list"
  EnvFrom :: "EnvFromSource list"

text \<open>
  Modelled from the spec: the Resource Adapter (package \<^verbatim>\<open>callbacks\<close>, not among the
  sources). A workload item is the record of what the adapter's accessors return for it:
  \<^verbatim>\<open>AnnotationsFunc\<close>, \<^verbatim>\<open>PodAnnotationsFunc\<close>, \<^verbatim>\<open>ContainersFunc\<close>,
  \<^verbatim>\<open>InitContainersFunc\<close>, \<^verbatim>\<open>VolumesFunc\<close> are the selectors, and
  \<^verbatim>\<open>meta.Accessor(item).GetName()\<close> is \<open>item_Name\<close>. The slices the accessors
  return alias the object, so a write through them is a record update.
\<close>

record Item =
  item_Name :: string
  Annotations :: "string \<rightharpoonup> string"
  PodAnnotations :: "string \<rightharpoonup> string"
  Containers :: "Container list"
  InitContainers :: "Container list"
  Volumes :: "Volume list"

text \<open>\<^verbatim>\<open>util.Config\<close>: one detected change.\<close>

record Config =
  cfg_Namespace :: string
  ResourceName :: string
  ResourceAnnotations :: "string \<rightharpoonup> string"
  Annotation :: string
  TypedAutoAnnotation :: string
  SHAValue :: string
  cfg_Type :: string

text \<open>
  The variables of package \<^verbatim>\<open>options\<close> and the constants of package
  \<^verbatim>\<open>constants\<close> that the handler reads (their declarations are not among the
  sources), and the process environment variable \<^verbatim>\<open>ALERT_ON_RELOAD\<close>.
\<close>

record options =
  AutoSearchAnnotation :: string
  ReloaderAutoAnnotation :: string
  ConfigmapExcludeReloaderAnnotation :: string
  SecretExcludeReloaderAnnotation :: string
  DelayedUpgradeAnnotation :: string
  SearchMatchAnnotation :: string
  AutoReloadAll :: bool
  ConfigmapEnvVarPostfix :: string
  SecretEnvVarPostfix :: string
  EnvVarPrefix :: string
  ALERT_ON_RELOAD :: "string option"

text \<open>A Go map read \<^verbatim>\<open>m[k]\<close>: the zero value \<^verbatim>\<open>""\<close> when the key is absent.\<close>

definition lookup :: "(string \<rightharpoonup> string) \<Rightarrow> string \<Rightarrow> string" where
  "lookup m k = (case m k of None \<Rightarrow> [] | Some v \<Rightarrow> v)"

subsection \<open>Resource usage scanner\<close>

definition checkIfResourceIsExcluded :: "string \<Rightarrow> string \<Rightarrow> bool" where
  "checkIfResourceIsExcluded resourceName excludedResources =
     (if excludedResources = [] then False
      else list_ex (\<lambda>excludedResource. TrimSpace excludedResource = resourceName)
             (Split excludedResources CHR '',''))"

fun getVolumeMountName :: "options \<Rightarrow> Volume list \<Rightarrow> string \<Rightarrow> string \<Rightarrow> string" where
  "getVolumeMountName K [] mountType volumeName = []"
| "getVolumeMountName K (v # vs) mountType volumeName =
     (if mountType = ConfigmapEnvVarPostfix K then
        (if vol_ConfigMap v = Some volumeName then vol_Name v
         else if (case vol_Projected v of
                    None \<Rightarrow> False
                  | Some srcs \<Rightarrow> list_ex (\<lambda>s. proj_ConfigMap s = Some volumeName) srcs)
         then vol_Name v
         else getVolumeMountName K vs mountType volumeName)
      else if mountType = SecretEnvVarPostfix K then
        (if vol_Secret v = Some volumeName then vol_Name v
         else if (case vol_Projected v of
                    None \<Rightarrow> False
                  | Some srcs \<Rightarrow> list_ex (\<lambda>s. proj_Secret s = Some volumeName) srcs)
         then vol_Name v
         else getVolumeMountName K vs mountType volumeName)
      else getVolumeMountName K vs mountType volumeName)"

text \<open>The index of the first element that satisfies \<open>P\<close>: the loops that return \<^verbatim>\<open>&containers[i]\<close>.\<close>

fun firstIndex :: "('a \<Rightarrow> bool) \<Rightarrow> 'a list \<Rightarrow> nat option" where
  "firstIndex P [] = None"
| "firstIndex P (x # xs) = (if P x then Some 0 else map_option Suc (firstIndex P xs))"

definition getContainerWithVolumeMount :: "Container list \<Rightarrow> string \<Rightarrow> nat option" where
  "getContainerWithVolumeMount containers volumeMountName =
     firstIndex (\<lambda>c. list_ex (\<lambda>m. vm_Name m = volumeMountName) (VolumeMounts c)) containers"

definition envVarRefers :: "options \<Rightarrow> string \<Rightarrow> string \<Rightarrow> EnvVar \<Rightarrow> bool" where
  "envVarRefers K resourceName resourceType e =
     (case ValueFrom e of
        None \<Rightarrow> False
      | Some envVarSource \<Rightarrow>
          (resourceType = SecretEnvVarPostfix K \<and> SecretKeyRef envVarSource = Some resourceName)
          \<or> (resourceType = ConfigmapEnvVarPostfix K \<and> ConfigMapKeyRef envVarSource = Some resourceName))"

definition envFromRefers :: "options \<Rightarrow> string \<Rightarrow> string \<Rightarrow> EnvFromSource \<Rightarrow> bool" where
  "envFromRefers K resourceName resourceType f =
     ((resourceType = SecretEnvVarPostfix K \<and> SecretRef f = Some resourceName)
      \<or> (resourceType = ConfigmapEnvVarPostfix K \<and> ConfigMapRef f = Some resourceName))"

definition getContainerWithEnvReference ::
  "options \<Rightarrow> Container list \<Rightarrow> string \<Rightarrow> string \<Rightarrow> nat option" where
  "getContainerWithEnvReference K containers resourceName resourceType =
     firstIndex (\<lambda>c. list_ex (envVarRefers K resourceName resourceType) (Env c)
                    \<or> list_ex (envFromRefers K resourceName resourceType) (EnvFrom c)) containers"

text \<open>\<^verbatim>\<open>&containers[0]\<close>: an index out of range panics.\<close>

definition firstContainer :: "Container list \<Rightarrow> panic + nat option" where
  "firstContainer containers = (if containers = [] then Inl IndexOutOfRange else Inr (Some 0))"

definition getContainerUsingResource :: "options \<Rightarrow> Item \<Rightarrow> Config \<Rightarrow> bool \<Rightarrow> panic + nat option" where
  "getContainerUsingResource K item config autoReload =
     (let volumes = Volumes item;
          containers = Containers item;
          initContainers = InitContainers item;
          volumeMountName = getVolumeMountName K volumes (cfg_Type config) (ResourceName config);
          byMount = (if volumeMountName \<noteq> [] then getContainerWithVolumeMount containers volumeMountName
                     else None);
          byInitMount = (if volumeMountName \<noteq> [] \<and> byMount = None \<and> initContainers \<noteq> []
                         then getContainerWithVolumeMount initContainers volumeMountName else None)
      in if byInitMount \<noteq> None then firstContainer containers
         else if byMount \<noteq> None then Inr byMount
         else
           (let byEnv = getContainerWithEnvReference K containers (ResourceName config) (cfg_Type config);
                byInitEnv = (if byEnv = None \<and> initContainers \<noteq> []
                             then getContainerWithEnvReference K initContainers
                                    (ResourceName config) (cfg_Type config)
                             else None)
            in if byInitEnv \<noteq> None then firstContainer containers
               else if byEnv = None \<and> \<not> autoReload then firstContainer containers
               else Inr byEnv))"

subsection \<open>Env-var update strategy\<close>

text \<open>
  \<^verbatim>\<open>util.ConvertToEnvVarName\<close> is not among the sources: it is the parameter \<open>conv\<close>.
\<close>

definition getEnvVarName :: "options \<Rightarrow> (string \<Rightarrow> string) \<Rightarrow> string \<Rightarrow> string \<Rightarrow> string" where
  "getEnvVarName K conv resourceName typeName = EnvVarPrefix K @ conv resourceName @ ''_'' @ typeName"

text \<open>
  The inner loop of \<^verbatim>\<open>updateEnvVar\<close> over one container's env list: the first variable
  named \<open>envVar\<close> decides.
\<close>

fun updateEnvs :: "EnvVar list \<Rightarrow> string \<Rightarrow> string \<Rightarrow> Result \<times> EnvVar list" where
  "updateEnvs [] envVar shaData = (NoEnvVarFound, [])"
| "updateEnvs (e # es) envVar shaData =
     (if env_Name e = envVar then
        (if env_Value e \<noteq> shaData then (Updated, e\<lparr>env_Value := shaData\<rparr> # es)
         else (NotUpdated, e # es))
      else (case updateEnvs es envVar shaData of (r, es') \<Rightarrow> (r, e # es')))"

fun updateEnvVar :: "Container list \<Rightarrow> string \<Rightarrow> string \<Rightarrow> Result \<times> Container list" where
  "updateEnvVar [] envVar shaData = (NoEnvVarFound, [])"
| "updateEnvVar (c # cs) envVar shaData =
     (case updateEnvs (Env c) envVar shaData of
        (NoEnvVarFound, _) \<Rightarrow> (case updateEnvVar cs envVar shaData of (r, cs') \<Rightarrow> (r, c # cs'))
      | (r, es') \<Rightarrow> (r, c\<lparr>Env := es'\<rparr> # cs))"

definition updateContainerEnvVars ::
  "options \<Rightarrow> (string \<Rightarrow> string) \<Rightarrow> Item \<Rightarrow> Config \<Rightarrow> bool \<Rightarrow> panic + (Result \<times> Item)" where
  "updateContainerEnvVars K conv item config autoReload =
     (let envVar = getEnvVarName K conv (ResourceName config) (cfg_Type config)
      in case getContainerUsingResource K item config autoReload of
           Inl p \<Rightarrow> Inl p
         | Inr None \<Rightarrow> Inr (NoContainerFound, item)
         | Inr (Some i) \<Rightarrow>
             (case updateEnvVar (Containers item) envVar (SHAValue config) of
                (NoEnvVarFound, _) \<Rightarrow>
                  (let container = Containers item ! i;
                       e = \<lparr>env_Name = envVar, env_Value = SHAValue config, ValueFrom = None\<rparr>
                   in Inr (Updated,
                        item\<lparr>Containers :=
                          (Containers item)[i := container\<lparr>Env := Env container @ [e]\<rparr>]\<rparr>))
              | (r, cs') \<Rightarrow> Inr (r, item\<lparr>Containers := cs'\<rparr>)))"

subsection \<open>Trigger evaluator\<close>

text \<open>
  The type \<^verbatim>\<open>invokeStrategy\<close>. The adapter argument is the item's selectors; the item
  the strategy has written to is returned with the result.
\<close>

type_synonym invokeStrategy = "Item \<Rightarrow> Config \<Rightarrow> bool \<Rightarrow> panic + (Result \<times> Item)"

text \<open>
  \<^verbatim>\<open>callbacks.RollingUpgradeFuncs\<close>, beside the accessors: the listing of a namespace
  (the \<^verbatim>\<open>clients\<close> argument is part of the function) and the update call, which
  returns \<open>Some err\<close> when it fails.
\<close>

record RollingUpgradeFuncs =
  ItemsFunc :: "string \<Rightarrow> Item list"
  UpdateFunc :: "string \<Rightarrow> Item \<Rightarrow> string option"
  ResourceType :: string

text \<open>
  The calls the handler makes to its collaborators: the strategy (the rule that calls
  it, at line 312, 322 or 334, its arguments and its result), \<^verbatim>\<open>UpdateFunc\<close>
  (namespace, item, error), the two counters (label \<^verbatim>\<open>success\<close>, namespace),
  \<^verbatim>\<open>recorder.Event\<close> (its reason), \<^verbatim>\<open>alert.SendWebhookAlert\<close>, and
  \<^verbatim>\<open>go delayedUpgrade.delayedFunc()\<close>, the goroutine that waits and then calls
  \<^verbatim>\<open>PerformDelayedUpgrade(itemId)\<close> (item id, seconds).
\<close>

datatype callSite = AutoReload | ManualMatch | SearchMatch

datatype effect =
    StrategyInvoked callSite Config bool Result
  | UpdateCalled string Item "string option"
  | MetricReloaded bool
  | MetricReloadedByNamespace bool string
  | EventRecorded string
  | AlertSent
  | TimerStarted string nat

text \<open>
  \<^verbatim>\<open>DelayedUpgrade\<close>. The Go map \<^verbatim>\<open>configs\<close> is an association list with distinct
  keys, a new key at the end; the order in which \<^verbatim>\<open>range\<close> visits a Go map is not
  specified, so the flush takes that order as a parameter. \<^verbatim>\<open>clients\<close> and
  \<^verbatim>\<open>collectors\<close> are part of the functions that use them, \<^verbatim>\<open>recorder\<close> is whether
  the recorder is non-nil, and \<^verbatim>\<open>delayedFunc\<close> is the effect \<open>TimerStarted\<close>.
\<close>

record DelayedUpgrade =
  ItemID :: string
  du_namespace :: string
  configs :: "(string \<times> Config) list"
  upgradeFuncs :: RollingUpgradeFuncs
  recorder :: bool
  strategy :: invokeStrategy
  updating :: bool

type_synonym registry = "string \<rightharpoonup> DelayedUpgrade"

definition debounceSeconds :: nat where
  "debounceSeconds = 10"

text \<open>The zero value of \<^verbatim>\<open>util.Config\<close> (\<^verbatim>\<open>var lastUpdatedConfig util.Config\<close>).\<close>

definition zeroConfig :: Config where
  "zeroConfig = \<lparr>cfg_Namespace = [], ResourceName = [], ResourceAnnotations = Map.empty,
     Annotation = [], TypedAutoAnnotation = [], SHAValue = [], cfg_Type = []\<rparr>"

text \<open>
  The four values the rules read (lines 227-243): from the workload's annotations, or,
  when none of the four keys is found there, from the pod template's annotations.
\<close>

record reloadValues =
  annotationValue :: string
  searchAnnotationValue :: string
  reloaderEnabledValue :: string
  typedAutoAnnotationEnabledValue :: string

definition readValues :: "options \<Rightarrow> (string \<rightharpoonup> string) \<Rightarrow> Config \<Rightarrow> reloadValues" where
  "readValues K annotations config =
     \<lparr>annotationValue = lookup annotations (Annotation config),
      searchAnnotationValue = lookup annotations (AutoSearchAnnotation K),
      reloaderEnabledValue = lookup annotations (ReloaderAutoAnnotation K),
      typedAutoAnnotationEnabledValue = lookup annotations (TypedAutoAnnotation config)\<rparr>"

definition reloadAnnotations :: "options \<Rightarrow> Item \<Rightarrow> Config \<Rightarrow> reloadValues" where
  "reloadAnnotations K item config =
     (let annotations = Annotations item;
          found = (annotations (Annotation config) \<noteq> None);
          foundSearchAnn = (annotations (AutoSearchAnnotation K) \<noteq> None);
          foundAuto = (annotations (ReloaderAutoAnnotation K) \<noteq> None);
          foundTypedAuto = (annotations (TypedAutoAnnotation config) \<noteq> None)
      in if \<not> found \<and> \<not> foundAuto \<and> \<not> foundTypedAuto \<and> \<not> foundSearchAnn
         then readValues K (PodAnnotations item) config
         else readValues K annotations config)"

text \<open>Lines 245-256: the exclude annotations are read from the workload's annotations only.\<close>

definition isResourceExcluded :: "options \<Rightarrow> Item \<Rightarrow> Config \<Rightarrow> bool" where
  "isResourceExcluded K item config =
     (if cfg_Type config = ConfigmapEnvVarPostfix K then
        (case Annotations item (ConfigmapExcludeReloaderAnnotation K) of
           None \<Rightarrow> False
         | Some excludeConfigmapAnnotationValue \<Rightarrow>
             checkIfResourceIsExcluded (ResourceName config) excludeConfigmapAnnotationValue)
      else if cfg_Type config = SecretEnvVarPostfix K then
        (case Annotations item (SecretExcludeReloaderAnnotation K) of
           None \<Rightarrow> False
         | Some excludeSecretAnnotationValue \<Rightarrow>
             checkIfResourceIsExcluded (ResourceName config) excludeSecretAnnotationValue)
      else False)"

text \<open>
  Lines 262-303, entered when the delayed-upgrade annotation is found. The first
  component says whether the loop continues with the next config (\<^verbatim>\<open>continue\<close>); when
  the batch is updating, no branch continues and control falls through to the rules.
\<close>

definition delayedUpgradeStep ::
  "Item \<Rightarrow> Config \<Rightarrow> RollingUpgradeFuncs \<Rightarrow> bool \<Rightarrow> invokeStrategy \<Rightarrow> registry
     \<Rightarrow> bool \<times> registry \<times> effect list" where
  "delayedUpgradeStep item config funcs rec strat DelayedUpgrades =
     (let itemId = item_Name item
      in case DelayedUpgrades itemId of
           Some delayedUpgrade \<Rightarrow>
             if updating delayedUpgrade then (False, DelayedUpgrades, [])
             else if map_of (configs delayedUpgrade) (ResourceName config) \<noteq> None
               then (True, DelayedUpgrades, [])
             else (True,
                   DelayedUpgrades(itemId \<mapsto> delayedUpgrade\<lparr>configs :=
                      configs delayedUpgrade @ [(ResourceName config, config)]\<rparr>),
                   [])
         | None \<Rightarrow>
             (True,
              DelayedUpgrades(itemId \<mapsto>
                \<lparr>ItemID = itemId, du_namespace = cfg_Namespace config,
                 configs = [(ResourceName config, config)], upgradeFuncs = funcs,
                 recorder = rec, strategy = strat, updating = False\<rparr>),
              [TimerStarted itemId debounceSeconds]))"

text \<open>A call of the strategy, recorded.\<close>

definition invoke ::
  "callSite \<Rightarrow> invokeStrategy \<Rightarrow> Item \<Rightarrow> Config \<Rightarrow> bool
     \<Rightarrow> panic + (Result \<times> Item \<times> effect list)" where
  "invoke site strat item config autoReload =
     (case strat item config autoReload of
        Inl p \<Rightarrow> Inl p
      | Inr (result, item') \<Rightarrow>
          Inr (result, item', [StrategyInvoked site config autoReload result]))"

text \<open>Lines 307-314.\<close>

definition autoReloadRule ::
  "options \<Rightarrow> invokeStrategy \<Rightarrow> Item \<Rightarrow> Config \<Rightarrow> reloadValues
     \<Rightarrow> panic + (Result \<times> Item \<times> effect list)" where
  "autoReloadRule K strat item config vals =
     (let reloaderEnabled = parsedTrue (reloaderEnabledValue vals);
          typedAutoAnnotationEnabled = parsedTrue (typedAutoAnnotationEnabledValue vals)
      in if reloaderEnabled \<or> typedAutoAnnotationEnabled
            \<or> (reloaderEnabledValue vals = [] \<and> typedAutoAnnotationEnabledValue vals = []
                \<and> AutoReloadAll K)
         then invoke AutoReload strat item config True
         else Inr (NotUpdated, item, []))"

text \<open>Lines 318-327: the loop over the tokens of the manual annotation.\<close>

fun manualLoop ::
  "(string \<Rightarrow> string \<Rightarrow> rx_result) \<Rightarrow> invokeStrategy \<Rightarrow> Config \<Rightarrow> string list \<Rightarrow> Result \<Rightarrow> Item
     \<Rightarrow> panic + (Result \<times> Item \<times> effect list)" where
  "manualLoop rx strat config [] result item = Inr (result, item, [])"
| "manualLoop rx strat config (v # values) result item =
     (case rx (''^'' @ TrimSpace v @ ''$'') (ResourceName config) of
        CompilePanic \<Rightarrow> Inl RegexpCompile
      | NoMatch \<Rightarrow> manualLoop rx strat config values result item
      | Match \<Rightarrow>
          (case invoke ManualMatch strat item config False of
             Inl p \<Rightarrow> Inl p
           | Inr (result', item', es) \<Rightarrow>
               if result' = Updated then Inr (result', item', es)
               else (case manualLoop rx strat config values result' item' of
                       Inl p \<Rightarrow> Inl p
                     | Inr (result'', item'', es') \<Rightarrow> Inr (result'', item'', es @ es'))))"

text \<open>Lines 316-328.\<close>

definition manualRule ::
  "(string \<Rightarrow> string \<Rightarrow> rx_result) \<Rightarrow> invokeStrategy \<Rightarrow> Config \<Rightarrow> reloadValues \<Rightarrow> Result \<Rightarrow> Item
     \<Rightarrow> panic + (Result \<times> Item \<times> effect list)" where
  "manualRule rx strat config vals result item =
     (if result \<noteq> Updated \<and> annotationValue vals \<noteq> []
      then manualLoop rx strat config (Split (annotationValue vals) CHR '','') result item
      else Inr (result, item, []))"

text \<open>Lines 330-336.\<close>

definition searchRule ::
  "options \<Rightarrow> invokeStrategy \<Rightarrow> Config \<Rightarrow> reloadValues \<Rightarrow> Result \<Rightarrow> Item
     \<Rightarrow> panic + (Result \<times> Item \<times> effect list)" where
  "searchRule K strat config vals result item =
     (if result \<noteq> Updated \<and> searchAnnotationValue vals = ''true''
         \<and> lookup (ResourceAnnotations config) (SearchMatchAnnotation K) = ''true''
      then invoke SearchMatch strat item config True
      else Inr (result, item, []))"

text \<open>Lines 305-336: the three rules in order.\<close>

definition evaluateRules ::
  "options \<Rightarrow> (string \<Rightarrow> string \<Rightarrow> rx_result) \<Rightarrow> invokeStrategy \<Rightarrow> Item \<Rightarrow> Config
     \<Rightarrow> panic + (Result \<times> Item \<times> effect list)" where
  "evaluateRules K rx strat item config =
     (let vals = reloadAnnotations K item config
      in case autoReloadRule K strat item config vals of
           Inl p \<Rightarrow> Inl p
         | Inr (r1, item1, es1) \<Rightarrow>
             (case manualRule rx strat config vals r1 item1 of
                Inl p \<Rightarrow> Inl p
              | Inr (r2, item2, es2) \<Rightarrow>
                  (case searchRule K strat config vals r2 item2 of
                     Inl p \<Rightarrow> Inl p
                   | Inr (r3, item3, es3) \<Rightarrow> Inr (r3, item3, es1 @ es2 @ es3))))"

text \<open>
  The variables of the loop over the configs (lines 221-342). The zero value of
  \<^verbatim>\<open>constants.Result\<close> is taken to be none of the four named results: \<open>None\<close>.
\<close>

record loopState =
  ls_item :: Item
  ls_registry :: registry
  ls_effects :: "effect list"
  atLeastOneUpdate :: "Result option"
  lastUpdatedConfig :: Config

text \<open>One iteration of the loop (lines 225-341).\<close>

definition configStep ::
  "options \<Rightarrow> (string \<Rightarrow> string \<Rightarrow> rx_result) \<Rightarrow> RollingUpgradeFuncs \<Rightarrow> bool \<Rightarrow> invokeStrategy
     \<Rightarrow> Config \<Rightarrow> loopState \<Rightarrow> panic + loopState" where
  "configStep K rx funcs rec strat config ls =
     (let ls0 = ls\<lparr>lastUpdatedConfig := config\<rparr>;
          item = ls_item ls;
          foundDelayedUpgrade = (Annotations item (DelayedUpgradeAnnotation K) \<noteq> None)
      in if isResourceExcluded K item config then Inr ls0
         else
           (case (if foundDelayedUpgrade
                  then delayedUpgradeStep item config funcs rec strat (ls_registry ls)
                  else (False, ls_registry ls, [])) of
              (True, registry', es) \<Rightarrow>
                Inr (ls0\<lparr>ls_registry := registry', ls_effects := ls_effects ls @ es\<rparr>)
            | (False, registry', es) \<Rightarrow>
                (case evaluateRules K rx strat item config of
                   Inl p \<Rightarrow> Inl p
                 | Inr (result, item', es') \<Rightarrow>
                     Inr (ls0\<lparr>ls_item := item', ls_registry := registry',
                            ls_effects := ls_effects ls @ es @ es',
                            atLeastOneUpdate :=
                              (if result = Updated then Some Updated else atLeastOneUpdate ls)\<rparr>))))"

fun configLoop ::
  "options \<Rightarrow> (string \<Rightarrow> string \<Rightarrow> rx_result) \<Rightarrow> RollingUpgradeFuncs \<Rightarrow> bool \<Rightarrow> invokeStrategy
     \<Rightarrow> Config list \<Rightarrow> loopState \<Rightarrow> panic + loopState" where
  "configLoop K rx funcs rec strat [] ls = Inr ls"
| "configLoop K rx funcs rec strat (config # cs) ls =
     (case configStep K rx funcs rec strat config ls of
        Inl p \<Rightarrow> Inl p
      | Inr ls' \<Rightarrow> configLoop K rx funcs rec strat cs ls')"

text \<open>
  Lines 344-382: the update call and the outcome report. \<^verbatim>\<open>meta.Accessor\<close> does not
  fail on an \<open>Item\<close>. The result is the returned error and the effects.
\<close>

definition applyUpdate ::
  "options \<Rightarrow> RollingUpgradeFuncs \<Rightarrow> bool \<Rightarrow> loopState \<Rightarrow> string option \<times> effect list" where
  "applyUpdate K funcs rec ls =
     (if atLeastOneUpdate ls = Some Updated then
        (let ns = cfg_Namespace (lastUpdatedConfig ls);
             err = UpdateFunc funcs ns (ls_item ls)
         in case err of
              Some e \<Rightarrow>
                (Some e,
                 [UpdateCalled ns (ls_item ls) err, MetricReloaded False,
                  MetricReloadedByNamespace False ns]
                 @ (if rec then [EventRecorded ''ReloadFail''] else []))
            | None \<Rightarrow>
                (None,
                 [UpdateCalled ns (ls_item ls) err, MetricReloaded True,
                  MetricReloadedByNamespace True ns]
                 @ (if rec then [EventRecorded ''Reloaded''] else [])
                 @ (if ALERT_ON_RELOAD K = Some ''true'' then [AlertSent] else [])))
      else (None, []))"

text \<open>
  \<^verbatim>\<open>PerformActionOnSingleItem\<close>: the returned error, the item and the registry after
  the call, and the effects of the call.
\<close>

definition PerformActionOnSingleItem ::
  "options \<Rightarrow> (string \<Rightarrow> string \<Rightarrow> rx_result) \<Rightarrow> Item \<Rightarrow> Config list \<Rightarrow> RollingUpgradeFuncs \<Rightarrow> bool
     \<Rightarrow> invokeStrategy \<Rightarrow> registry \<Rightarrow> panic + (string option \<times> Item \<times> registry \<times> effect list)" where
  "PerformActionOnSingleItem K rx item cfgs funcs rec strat DelayedUpgrades =
     (case configLoop K rx funcs rec strat cfgs
             \<lparr>ls_item = item, ls_registry = DelayedUpgrades, ls_effects = [],
              atLeastOneUpdate = None, lastUpdatedConfig = zeroConfig\<rparr> of
        Inl p \<Rightarrow> Inl p
      | Inr ls \<Rightarrow>
          (case applyUpdate K funcs rec ls of
             (err, es) \<Rightarrow> Inr (err, ls_item ls, ls_registry ls, ls_effects ls @ es)))"

text \<open>
  \<^verbatim>\<open>PerformAction\<close> (lines 208-218): each listed item is evaluated against the one
  config, and the first error ends the loop. The listed objects are local to the call;
  the result is the returned error, the registry and the effects.
\<close>

fun performItems ::
  "options \<Rightarrow> (string \<Rightarrow> string \<Rightarrow> rx_result) \<Rightarrow> Config \<Rightarrow> RollingUpgradeFuncs \<Rightarrow> bool
     \<Rightarrow> invokeStrategy \<Rightarrow> Item list \<Rightarrow> registry \<Rightarrow> panic + (string option \<times> registry \<times> effect list)" where
  "performItems K rx config funcs rec strat [] DelayedUpgrades = Inr (None, DelayedUpgrades, [])"
| "performItems K rx config funcs rec strat (i # items) DelayedUpgrades =
     (case PerformActionOnSingleItem K rx i [config] funcs rec strat DelayedUpgrades of
        Inl p \<Rightarrow> Inl p
      | Inr (err, i', DelayedUpgrades', es) \<Rightarrow>
          (case err of
             Some e \<Rightarrow> Inr (Some e, DelayedUpgrades', es)
           | None \<Rightarrow>
               (case performItems K rx config funcs rec strat items DelayedUpgrades' of
                  Inl p \<Rightarrow> Inl p
                | Inr (err', DelayedUpgrades'', es') \<Rightarrow> Inr (err', DelayedUpgrades'', es @ es'))))"

definition PerformAction ::
  "options \<Rightarrow> (string \<Rightarrow> string \<Rightarrow> rx_result) \<Rightarrow> Config \<Rightarrow> RollingUpgradeFuncs \<Rightarrow> bool
     \<Rightarrow> invokeStrategy \<Rightarrow> registry \<Rightarrow> panic + (string option \<times> registry \<times> effect list)" where
  "PerformAction K rx config funcs rec strat DelayedUpgrades =
     performItems K rx config funcs rec strat (ItemsFunc funcs (cfg_Namespace config)) DelayedUpgrades"

subsection \<open>Delayed-upgrade coalescer\<close>

text \<open>
  \<^verbatim>\<open>PerformDelayedUpgrade\<close>, with \<open>rangeOrder\<close> the order in which \<^verbatim>\<open>range\<close> visits the
  values of the batch's map. When no listed item has the name, \<^verbatim>\<open>item\<close> stays the nil
  interface; the evaluator then returns at once for an empty list of configs, and
  otherwise its first statement hands nil to the adapter's \<^verbatim>\<open>AnnotationsFunc\<close>, which
  is taken to panic on it (it converts the interface to the workload's type).
\<close>

definition flushConfigs :: "(Config list \<Rightarrow> Config list) \<Rightarrow> DelayedUpgrade \<Rightarrow> Config list" where
  "flushConfigs rangeOrder delayedUpgrade = rangeOrder (map snd (configs delayedUpgrade))"

definition PerformDelayedUpgrade ::
  "options \<Rightarrow> (string \<Rightarrow> string \<Rightarrow> rx_result) \<Rightarrow> (Config list \<Rightarrow> Config list) \<Rightarrow> string \<Rightarrow> registry
     \<Rightarrow> panic + (registry \<times> effect list)" where
  "PerformDelayedUpgrade K rx rangeOrder itemId DelayedUpgrades =
     (case DelayedUpgrades itemId of
        None \<Rightarrow> Inr (DelayedUpgrades, [])
      | Some delayedUpgrade \<Rightarrow>
          (let items = ItemsFunc (upgradeFuncs delayedUpgrade) (du_namespace delayedUpgrade);
               item = find (\<lambda>i. item_Name i = itemId) items;
               cfgs = flushConfigs rangeOrder delayedUpgrade;
               registry1 = DelayedUpgrades(itemId \<mapsto> delayedUpgrade\<lparr>updating := True\<rparr>)
           in case item of
                None \<Rightarrow> if cfgs = [] then Inr (registry1(itemId := None), []) else Inl NilItem
              | Some i \<Rightarrow>
                  (case PerformActionOnSingleItem K rx i cfgs (upgradeFuncs delayedUpgrade)
                          (recorder delayedUpgrade) (strategy delayedUpgrade) registry1 of
                     Inl p \<Rightarrow> Inl p
                   | Inr (err, i', registry2, es) \<Rightarrow> Inr (registry2(itemId := None), es))))"

subsection \<open>The spec's notion of a consuming container\<close>

text \<open>
  Section 4.2 of the spec: a container consumes a ConfigMap or Secret when it mounts a
  volume whose source is the resource (directly or nested in a projected volume), or one
  of its env variables refers to it (\<^verbatim>\<open>valueFrom.configMapKeyRef\<close>,
  \<^verbatim>\<open>valueFrom.secretKeyRef\<close>), or one of its \<^verbatim>\<open>envFrom\<close> entries names it.
\<close>

definition volumeHolds :: "options \<Rightarrow> Config \<Rightarrow> Volume \<Rightarrow> bool" where
  "volumeHolds K config v =
     ((cfg_Type config = ConfigmapEnvVarPostfix K
        \<and> (vol_ConfigMap v = Some (ResourceName config)
           \<or> (case vol_Projected v of
                 None \<Rightarrow> False
               | Some srcs \<Rightarrow> list_ex (\<lambda>s. proj_ConfigMap s = Some (ResourceName config)) srcs)))
      \<or> (cfg_Type config = SecretEnvVarPostfix K
        \<and> (vol_Secret v = Some (ResourceName config)
           \<or> (case vol_Projected v of
                 None \<Rightarrow> False
               | Some srcs \<Rightarrow> list_ex (\<lambda>s. proj_Secret s = Some (ResourceName config)) srcs))))"

definition consumesResource :: "options \<Rightarrow> Item \<Rightarrow> Config \<Rightarrow> Container \<Rightarrow> bool" where
  "consumesResource K item config c =
     (list_ex (\<lambda>v. volumeHolds K config v \<and> list_ex (\<lambda>m. vm_Name m = vol_Name v) (VolumeMounts c))
        (Volumes item)
      \<or> list_ex (envVarRefers K (ResourceName config) (cfg_Type config)) (Env c)
      \<or> list_ex (envFromRefers K (ResourceName config) (cfg_Type config)) (EnvFrom c))"

subsection \<open>Notions used in the statements and proofs\<close>

text \<open>The exclude annotation of the config's kind (section 4.4, the exclusion check).\<close>

definition excludeAnnotationFor :: "options \<Rightarrow> Config \<Rightarrow> string option" where
  "excludeAnnotationFor K config =
     (if cfg_Type config = ConfigmapEnvVarPostfix K then Some (ConfigmapExcludeReloaderAnnotation K)
      else if cfg_Type config = SecretEnvVarPostfix K then Some (SecretExcludeReloaderAnnotation K)
      else None)"


text \<open>
  A change is deferred to the coalescer when the workload carries the delayed-upgrade
  annotation and its batch, if there is one, is not being flushed.
\<close>

definition deferred :: "options \<Rightarrow> Item \<Rightarrow> registry \<Rightarrow> bool" where
  "deferred K item DelayedUpgrades =
     (Annotations item (DelayedUpgradeAnnotation K) \<noteq> None
      \<and> (case DelayedUpgrades (item_Name item) of
            None \<Rightarrow> True
          | Some delayedUpgrade \<Rightarrow> \<not> updating delayedUpgrade))"

text \<open>
  The value the env-var strategy compares with the content hash: that of the first env
  variable of the given name, over the regular containers in order (section 4.3: "if
  that env var already exists on any container, compare its value").
\<close>

definition currentEnvValue :: "Container list \<Rightarrow> string \<Rightarrow> string option" where
  "currentEnvValue cs name =
     map_option env_Value (find (\<lambda>e. env_Name e = name) (concat (map Env cs)))"

text \<open>
  What the scanner reads of a container: its volume mounts, its \<^verbatim>\<open>envFrom\<close> entries and
  whether one of its env variables refers to the resource.
\<close>

definition sameRefs :: "options \<Rightarrow> string \<Rightarrow> string \<Rightarrow> Container \<Rightarrow> Container \<Rightarrow> bool" where
  "sameRefs K resourceName resourceType c c' =
     (VolumeMounts c' = VolumeMounts c \<and> EnvFrom c' = EnvFrom c
      \<and> list_ex (envVarRefers K resourceName resourceType) (Env c')
          = list_ex (envVarRefers K resourceName resourceType) (Env c))"

text \<open>
  A sequence of change events for one workload, each delivered as \<^verbatim>\<open>PerformAction\<close>
  delivers it: \<^verbatim>\<open>PerformActionOnSingleItem\<close> with the one config, on the workload as
  listed. The result is the registry after the last event.
\<close>

fun deliver ::
  "options \<Rightarrow> (string \<Rightarrow> string \<Rightarrow> rx_result) \<Rightarrow> RollingUpgradeFuncs \<Rightarrow> bool \<Rightarrow> invokeStrategy
     \<Rightarrow> Item \<Rightarrow> Config list \<Rightarrow> registry \<Rightarrow> panic + registry" where
  "deliver K rx funcs rec strat item [] DelayedUpgrades = Inr DelayedUpgrades"
| "deliver K rx funcs rec strat item (config # rest) DelayedUpgrades =
     (case PerformActionOnSingleItem K rx item [config] funcs rec strat DelayedUpgrades of
        Inl p \<Rightarrow> Inl p
      | Inr (err, item', DelayedUpgrades', es) \<Rightarrow> deliver K rx funcs rec strat item rest DelayedUpgrades')"

text \<open>The pending-configs map that keeps, for each resource name, the first change received.\<close>

definition firstReceived :: "Config list \<Rightarrow> string \<rightharpoonup> Config" where
  "firstReceived cs = map_of (map (\<lambda>c. (ResourceName c, c)) cs)"



subsection \<open>Sample data\<close>

text \<open>
  A deployment \<^verbatim>\<open>web\<close> with one container that reads the ConfigMaps \<^verbatim>\<open>app-config\<close> and
  \<^verbatim>\<open>feature-flags\<close> through \<^verbatim>\<open>envFrom\<close>, and a change of each ConfigMap.
\<close>

definition sampleOptions :: options where
  "sampleOptions =
     \<lparr>AutoSearchAnnotation = ''reloader.stakater.com/search'',
      ReloaderAutoAnnotation = ''reloader.stakater.com/auto'',
      ConfigmapExcludeReloaderAnnotation = ''configmaps.exclude.reloader.stakater.com/reload'',
      SecretExcludeReloaderAnnotation = ''secrets.exclude.reloader.stakater.com/reload'',
      DelayedUpgradeAnnotation = ''reloader.stakater.com/delayed-upgrade'',
      SearchMatchAnnotation = ''reloader.stakater.com/match'',
      AutoReloadAll = False,
      ConfigmapEnvVarPostfix = ''CONFIGMAP'',
      SecretEnvVarPostfix = ''SECRET'',
      EnvVarPrefix = ''STAKATER_'',
      ALERT_ON_RELOAD = None\<rparr>"

definition appContainer :: Container where
  "appContainer =
     \<lparr>ctr_Name = ''app'', VolumeMounts = [], Env = [],
      EnvFrom = [\<lparr>SecretRef = None, ConfigMapRef = Some ''app-config''\<rparr>,
                 \<lparr>SecretRef = None, ConfigMapRef = Some ''feature-flags''\<rparr>]\<rparr>"

definition web :: Item where
  "web =
     \<lparr>item_Name = ''web'', Annotations = Map.empty, PodAnnotations = Map.empty,
      Containers = [appContainer], InitContainers = [], Volumes = []\<rparr>"

definition appConfig :: Config where
  "appConfig =
     \<lparr>cfg_Namespace = ''default'', ResourceName = ''app-config'',
      ResourceAnnotations = Map.empty,
      Annotation = ''configmap.reloader.stakater.com/reload'',
      TypedAutoAnnotation = ''configmap.reloader.stakater.com/auto'',
      SHAValue = ''def456'', cfg_Type = ''CONFIGMAP''\<rparr>"

definition featureFlags :: Config where
  "featureFlags = appConfig\<lparr>ResourceName := ''feature-flags'', SHAValue := ''0a1b2c''\<rparr>"

definition dbConfig :: Config where
  "dbConfig = appConfig\<lparr>ResourceName := ''db-settings''\<rparr>"

text \<open>
  Go's \<^verbatim>\<open>regexp\<close> on the patterns that use no operator but the two anchors: an optional
  \<^verbatim>\<open>^\<close>, then letters, digits, \<^verbatim>\<open>-\<close> and \<^verbatim>\<open>_\<close>, then an optional \<^verbatim>\<open>$\<close>. Such a
  pattern compiles; \<^verbatim>\<open>Match\<close> searches the text for the literal, \<^verbatim>\<open>^\<close> holds only at
  the start of the text and \<^verbatim>\<open>$\<close> only at its end. \<open>None\<close>: the pattern is not of this
  form, and nothing is said about it.
\<close>

definition plainChar :: "char \<Rightarrow> bool" where
  "plainChar c =
     (c \<in> set ''abcdefghijklmnopqrstuvwxyzABCDEFGHIJKLMNOPQRSTUVWXYZ0123456789-_'')"

definition literalRegexp :: "string \<Rightarrow> string \<Rightarrow> rx_result option" where
  "literalRegexp p t =
     (let atStart = (p \<noteq> [] \<and> hd p = CHR ''^'');
          p' = (if atStart then tl p else p);
          atEnd = (p' \<noteq> [] \<and> last p' = CHR ''$'');
          lit = (if atEnd then butlast p' else p')
      in if list_all plainChar lit
         then Some (if (if atStart then (if atEnd then t = lit else prefix lit t)
                        else (if atEnd then suffix lit t else sublist lit t))
                    then Match else NoMatch)
         else None)"

definition agreesOnLiterals :: "(string \<Rightarrow> string \<Rightarrow> rx_result) \<Rightarrow> bool" where
  "agreesOnLiterals rx = (\<forall>p t r. literalRegexp p t = Some r \<longrightarrow> rx p t = r)"

text \<open>An engine for the sample runs: it agrees with the above, and rejects every other pattern.\<close>

definition sampleRegexp :: "string \<Rightarrow> string \<Rightarrow> rx_result" where
  "sampleRegexp p t = (case literalRegexp p t of Some r \<Rightarrow> r | None \<Rightarrow> CompilePanic)"

text \<open>
  Modelled from the spec: \<^verbatim>\<open>util.ConvertToEnvVarName\<close> (not among the sources), the
  "sanitized uppercase resource name" of section 4.3: letters in upper case, digits
  kept, every other byte an underscore (\<^verbatim>\<open>app-config\<close> gives \<^verbatim>\<open>APP_CONFIG\<close>, Scenario A).
  Used in the sample runs only.
\<close>

definition envVarChar :: "char \<Rightarrow> char" where
  "envVarChar c =
     (case map_of (zip ''abcdefghijklmnopqrstuvwxyz'' ''ABCDEFGHIJKLMNOPQRSTUVWXYZ'') c of
        Some u \<Rightarrow> u
      | None \<Rightarrow> if c \<in> set ''ABCDEFGHIJKLMNOPQRSTUVWXYZ0123456789'' then c else CHR ''_'')"

definition ConvertToEnvVarName :: "string \<Rightarrow> string" where
  "ConvertToEnvVarName = map envVarChar"

definition envVarStrategy :: invokeStrategy where
  "envVarStrategy = updateContainerEnvVars sampleOptions ConvertToEnvVarName"

text \<open>An adapter whose update call succeeds, and one whose update call fails.\<close>

definition deployments :: "Item list \<Rightarrow> RollingUpgradeFuncs" where
  "deployments items =
     \<lparr>ItemsFunc = (\<lambda>namespace. items), UpdateFunc = (\<lambda>namespace item. None),
      ResourceType = ''Deployment''\<rparr>"

definition failingDeployments :: "Item list \<Rightarrow> RollingUpgradeFuncs" where
  "failingDeployments items =
     \<lparr>ItemsFunc = (\<lambda>namespace. items), UpdateFunc = (\<lambda>namespace item. Some ''conflict''),
      ResourceType = ''Deployment''\<rparr>"

text \<open>The sample deployment with the generic auto-reload annotation.\<close>

definition autoWeb :: Item where
  "autoWeb = web\<lparr>Annotations := [''reloader.stakater.com/auto'' \<mapsto> ''true'']\<rparr>"

text \<open>The container of the sample deployment after the change of \<^verbatim>\<open>app-config\<close> is applied.\<close>

definition reloadedContainer :: Container where
  "reloadedContainer =
     appContainer\<lparr>Env := [\<lparr>env_Name = ''STAKATER_APP_CONFIG_CONFIGMAP'', env_Value = ''def456'',
                            ValueFrom = None\<rparr>]\<rparr>"

text \<open>
  The sample deployment with the delayed-upgrade annotation added, and a pending batch
  for it as the evaluator creates it.
\<close>

definition delayedWeb :: Item where
  "delayedWeb =
     autoWeb\<lparr>Annotations := (Annotations autoWeb)(''reloader.stakater.com/delayed-upgrade'' \<mapsto> ''true'')\<rparr>"

definition pendingBatch :: "RollingUpgradeFuncs \<Rightarrow> Config list \<Rightarrow> DelayedUpgrade" where
  "pendingBatch funcs cfgs =
     \<lparr>ItemID = ''web'', du_namespace = ''default'',
      configs = map (\<lambda>c. (ResourceName c, c)) cfgs, upgradeFuncs = funcs,
      recorder = True, strategy = envVarStrategy, updating = False\<rparr>"

text \<open>A change of a ConfigMap named \<^verbatim>\<open>foo\<close>, and the values of a manual annotation.\<close>

definition fooConfig :: Config where
  "fooConfig = appConfig\<lparr>ResourceName := ''foo''\<rparr>"

definition manualValues :: "string \<Rightarrow> reloadValues" where
  "manualValues v =
     \<lparr>annotationValue = v, searchAnnotationValue = [], reloaderEnabledValue = [],
      typedAutoAnnotationEnabledValue = []\<rparr>"

text \<open>The sample deployment after the change of \<^verbatim>\<open>app-config\<close> is applied.\<close>

definition reloadedWeb :: Item where
  "reloadedWeb = autoWeb\<lparr>Containers := [reloadedContainer]\<rparr>"



section \<open>Properties\<close>

subsection \<open>Library functions and the scanner\<close>

lemma Split_nonempty: "Split s sep \<noteq> []"
  by (induction s) (auto split: list.splits)

lemma firstIndex_None_iff: "firstIndex P xs = None \<longleftrightarrow> (\<forall>x\<in>set xs. \<not> P x)"
  by (induction xs) auto

lemma firstIndex_less: "firstIndex P xs = Some i \<Longrightarrow> i < length xs \<and> P (xs ! i)"
  by (induction xs arbitrary: i) (auto split: if_splits)

lemma getVolumeMountName_holds:
  "getVolumeMountName K vs (cfg_Type config) (ResourceName config) \<noteq> [] \<Longrightarrow>
   \<exists>v\<in>set vs. volumeHolds K config v
      \<and> vol_Name v = getVolumeMountName K vs (cfg_Type config) (ResourceName config)"
proof (induction vs)
  case Nil
  then show ?case by simp
next
  case (Cons v vs)
  have "(getVolumeMountName K (v # vs) (cfg_Type config) (ResourceName config) = vol_Name v
          \<and> volumeHolds K config v)
      \<or> getVolumeMountName K (v # vs) (cfg_Type config) (ResourceName config)
          = getVolumeMountName K vs (cfg_Type config) (ResourceName config)"
    by (simp add: volumeHolds_def split: option.splits)
  then show ?case
  proof
    assume "getVolumeMountName K (v # vs) (cfg_Type config) (ResourceName config) = vol_Name v
          \<and> volumeHolds K config v"
    then show ?thesis by (intro bexI[of _ v]) simp_all
  next
    assume eq: "getVolumeMountName K (v # vs) (cfg_Type config) (ResourceName config)
          = getVolumeMountName K vs (cfg_Type config) (ResourceName config)"
    with Cons.prems have "getVolumeMountName K vs (cfg_Type config) (ResourceName config) \<noteq> []"
      by simp
    from Cons.IH[OF this] obtain w where "w \<in> set vs" "volumeHolds K config w"
      "vol_Name w = getVolumeMountName K vs (cfg_Type config) (ResourceName config)"
      by blast
    then show ?thesis unfolding eq by (intro bexI[of _ w]) simp_all
  qed
qed

lemma no_consumer_mount:
  assumes "\<forall>c\<in>set cs. \<not> consumesResource K item config c"
    and "getVolumeMountName K (Volumes item) (cfg_Type config) (ResourceName config) \<noteq> []"
  shows "getContainerWithVolumeMount cs
           (getVolumeMountName K (Volumes item) (cfg_Type config) (ResourceName config)) = None"
proof -
  from getVolumeMountName_holds[OF assms(2)] obtain v where
    v: "v \<in> set (Volumes item)" "volumeHolds K config v"
       "vol_Name v = getVolumeMountName K (Volumes item) (cfg_Type config) (ResourceName config)"
    by blast
  show ?thesis
    unfolding getContainerWithVolumeMount_def firstIndex_None_iff
  proof
    fix c assume "c \<in> set cs"
    with assms(1) have "\<not> consumesResource K item config c" by blast
    with v show "\<not> list_ex (\<lambda>m. vm_Name m =
        getVolumeMountName K (Volumes item) (cfg_Type config) (ResourceName config)) (VolumeMounts c)"
      by (auto simp: consumesResource_def list_ex_iff)
  qed
qed

lemma no_consumer_env:
  assumes "\<forall>c\<in>set cs. \<not> consumesResource K item config c"
  shows "getContainerWithEnvReference K cs (ResourceName config) (cfg_Type config) = None"
  using assms
  by (auto simp: getContainerWithEnvReference_def firstIndex_None_iff consumesResource_def)

lemma no_consumer_resolver:
  assumes "list_all (\<lambda>c. \<not> consumesResource K item config c) (Containers item @ InitContainers item)"
  shows "getContainerUsingResource K item config autoReload =
           (if autoReload then Inr None else firstContainer (Containers item))"
proof -
  have a: "\<forall>c\<in>set (Containers item). \<not> consumesResource K item config c"
    and b: "\<forall>c\<in>set (InitContainers item). \<not> consumesResource K item config c"
    using assms by (auto simp: list_all_iff)
  show ?thesis
    using no_consumer_mount[OF a] no_consumer_mount[OF b] no_consumer_env[OF a] no_consumer_env[OF b]
    by (simp add: getContainerUsingResource_def Let_def)
qed

text \<open>
  C8. When no regular container and no init container consumes the resource, the
  resolver returns no container for \<open>autoReload = True\<close>, so the env-var strategy answers
  \<open>NoContainerFound\<close> and leaves the item as it is; for \<open>autoReload = False\<close> it returns
  the first regular container (index 0) of an item that has one.
\<close>

theorem resolver_without_consumer:
  assumes "list_all (\<lambda>c. \<not> consumesResource K item config c) (Containers item @ InitContainers item)"
  shows "getContainerUsingResource K item config True = Inr None
       \<and> (Containers item \<noteq> [] \<longrightarrow> getContainerUsingResource K item config False = Inr (Some 0))
       \<and> updateContainerEnvVars K conv item config True = Inr (NoContainerFound, item)"
  using no_consumer_resolver[OF assms]
  by (simp add: firstContainer_def updateContainerEnvVars_def)

theorem resolver_without_consumer_witness:
  "list_all (\<lambda>c. \<not> consumesResource sampleOptions web dbConfig c) (Containers web @ InitContainers web)
   \<and> getContainerUsingResource sampleOptions web dbConfig True = Inr None
   \<and> getContainerUsingResource sampleOptions web dbConfig False = Inr (Some 0)
   \<and> updateContainerEnvVars sampleOptions id web dbConfig True = Inr (NoContainerFound, web)"
proof -
  have h: "list_all (\<lambda>c. \<not> consumesResource sampleOptions web dbConfig c)
             (Containers web @ InitContainers web)"
    by (simp add: consumesResource_def web_def appContainer_def dbConfig_def appConfig_def
          envFromRefers_def sampleOptions_def)
  have ne: "Containers web \<noteq> []" by (simp add: web_def)
  show ?thesis
    using h ne resolver_without_consumer[OF h, of id] by simp
qed

text \<open>
  C9. With at least one regular container the resolver returns. With none, it indexes
  out of range exactly when an init container mounts the resource's volume, or an init
  container refers to the resource in its environment, or \<open>autoReload\<close> is false; only
  otherwise does it return no container.
\<close>

theorem resolver_total_iff_containers:
  "(Containers item \<noteq> [] \<longrightarrow> (\<exists>r. getContainerUsingResource K item config autoReload = Inr r))
   \<and> (Containers item = [] \<longrightarrow>
        getContainerUsingResource K item config autoReload =
          (if (getVolumeMountName K (Volumes item) (cfg_Type config) (ResourceName config) \<noteq> []
               \<and> getContainerWithVolumeMount (InitContainers item)
                    (getVolumeMountName K (Volumes item) (cfg_Type config) (ResourceName config)) \<noteq> None)
              \<or> getContainerWithEnvReference K (InitContainers item) (ResourceName config)
                   (cfg_Type config) \<noteq> None
              \<or> \<not> autoReload
           then Inl IndexOutOfRange else Inr None))"
  by (auto simp: getContainerUsingResource_def Let_def firstContainer_def
        getContainerWithVolumeMount_def getContainerWithEnvReference_def)

theorem resolver_total_iff_containers_witness:
  "getContainerUsingResource sampleOptions (web\<lparr>Containers := []\<rparr>) appConfig False = Inl IndexOutOfRange
   \<and> getContainerUsingResource sampleOptions (web\<lparr>Containers := []\<rparr>) appConfig True = Inr None
   \<and> getContainerUsingResource sampleOptions
        (web\<lparr>Containers := [], InitContainers := [appContainer]\<rparr>) appConfig True = Inl IndexOutOfRange
   \<and> (\<exists>r. getContainerUsingResource sampleOptions web appConfig True = Inr r)"
  using resolver_total_iff_containers[of "web\<lparr>Containers := []\<rparr>" sampleOptions appConfig False]
    resolver_total_iff_containers[of "web\<lparr>Containers := []\<rparr>" sampleOptions appConfig True]
    resolver_total_iff_containers[of "web\<lparr>Containers := [], InitContainers := [appContainer]\<rparr>"
      sampleOptions appConfig True]
    resolver_total_iff_containers[of web sampleOptions appConfig True]
  by (simp add: web_def appContainer_def appConfig_def sampleOptions_def
        getContainerWithVolumeMount_def getContainerWithEnvReference_def envFromRefers_def)

text \<open>A change event for a namespace that lists one workload is one evaluation of that workload.\<close>

lemma PerformAction_one_item:
  "ItemsFunc funcs (cfg_Namespace config) = [item] \<Longrightarrow>
   PerformAction K rx config funcs rec strat reg =
     (case PerformActionOnSingleItem K rx item [config] funcs rec strat reg of
        Inl p \<Rightarrow> Inl p
      | Inr (err, item', reg', es) \<Rightarrow> Inr (err, reg', es))"
  by (simp add: PerformAction_def split: sum.splits option.splits)

lemma PerformActionOnSingleItem_single:
  "PerformActionOnSingleItem K rx item [config] funcs rec strat reg =
     (case configStep K rx funcs rec strat config
             \<lparr>ls_item = item, ls_registry = reg, ls_effects = [],
              atLeastOneUpdate = None, lastUpdatedConfig = zeroConfig\<rparr> of
        Inl p \<Rightarrow> Inl p
      | Inr ls \<Rightarrow>
          (case applyUpdate K funcs rec ls of
             (err, es) \<Rightarrow> Inr (err, ls_item ls, ls_registry ls, ls_effects ls @ es)))"
  by (simp add: PerformActionOnSingleItem_def split: sum.splits)

lemma configStep_excluded:
  "isResourceExcluded K (ls_item ls) config \<Longrightarrow>
   configStep K rx funcs rec strat config ls = Inr (ls\<lparr>lastUpdatedConfig := config\<rparr>)"
  by (simp add: configStep_def Let_def)

lemma checkIfResourceIsExcluded_iff:
  "checkIfResourceIsExcluded name v \<longleftrightarrow> v \<noteq> [] \<and> name \<in> set (map TrimSpace (Split v CHR '',''))"
  by (auto simp: checkIfResourceIsExcluded_def list_ex_iff)

lemma TrimSpace_Nil: "TrimSpace [] = []"
  by (simp add: TrimSpace_def)

lemma listed_excluded:
  assumes "excludeAnnotationFor K config = Some key" "Annotations item key = Some v"
    "ResourceName config \<in> set (map TrimSpace (Split v CHR '',''))" "ResourceName config \<noteq> []"
  shows "isResourceExcluded K item config"
proof -
  have "v \<noteq> []" using assms(3,4) by (auto simp: TrimSpace_Nil)
  then have "checkIfResourceIsExcluded (ResourceName config) v"
    using assms(3) by (simp add: checkIfResourceIsExcluded_iff)
  then show ?thesis using assms(1,2)
    by (auto simp: isResourceExcluded_def excludeAnnotationFor_def split: if_splits)
qed

text \<open>
  C4. When the exclude annotation of the config's kind is present on the workload and
  the resource name is one of the trimmed comma-separated entries of its value, the
  config is skipped: the evaluation of that one change returns nil, leaves the item and
  the registry as they were and calls nothing (no strategy, no update, no metric), for
  every strategy and whatever the other annotations say; inside a batch the iteration
  only records the config as the last one seen. Resource names are not empty.
\<close>

theorem excluded_config_is_skipped:
  assumes "excludeAnnotationFor K config = Some key" "Annotations item key = Some v"
    "ResourceName config \<in> set (map TrimSpace (Split v CHR '',''))" "ResourceName config \<noteq> []"
  shows "PerformActionOnSingleItem K rx item [config] funcs rec strat reg = Inr (None, item, reg, [])
       \<and> configStep K rx funcs rec strat config (ls\<lparr>ls_item := item\<rparr>)
           = Inr (ls\<lparr>ls_item := item, lastUpdatedConfig := config\<rparr>)"
  using listed_excluded[OF assms]
  by (simp add: PerformActionOnSingleItem_single configStep_excluded applyUpdate_def)

lemmas eval_defs =
  PerformActionOnSingleItem_def configStep_def isResourceExcluded_def delayedUpgradeStep_def
  evaluateRules_def reloadAnnotations_def readValues_def lookup_def autoReloadRule_def
  parsedTrue_def ParseBool_def manualRule_def searchRule_def invoke_def applyUpdate_def
  updateContainerEnvVars_def getContainerUsingResource_def getContainerWithVolumeMount_def
  getContainerWithEnvReference_def envVarRefers_def envFromRefers_def firstContainer_def
  getEnvVarName_def checkIfResourceIsExcluded_def Let_def

lemmas sample_defs =
  sampleOptions_def web_def autoWeb_def appContainer_def reloadedContainer_def appConfig_def
  featureFlags_def dbConfig_def envVarStrategy_def ConvertToEnvVarName_def envVarChar_def
  deployments_def failingDeployments_def

lemma TrimSpace_examples:
  "TrimSpace ''db-settings'' = ''db-settings''" "TrimSpace '' app-config '' = ''app-config''"
  by (simp_all add: TrimSpace_def asciiSpace_def unicodeSpaces_def)

theorem excluded_config_is_skipped_witness:
  "PerformActionOnSingleItem sampleOptions sampleRegexp
      (autoWeb\<lparr>Annotations := (Annotations autoWeb)
         (''configmaps.exclude.reloader.stakater.com/reload'' \<mapsto> ''db-settings, app-config '')\<rparr>)
      [appConfig] (deployments []) True envVarStrategy Map.empty
    = Inr (None,
        autoWeb\<lparr>Annotations := (Annotations autoWeb)
         (''configmaps.exclude.reloader.stakater.com/reload'' \<mapsto> ''db-settings, app-config '')\<rparr>,
        Map.empty, [])
   \<and> PerformActionOnSingleItem sampleOptions sampleRegexp autoWeb [appConfig] (deployments []) True
        envVarStrategy Map.empty
    = Inr (None, autoWeb\<lparr>Containers := [reloadedContainer]\<rparr>, Map.empty,
        [StrategyInvoked AutoReload appConfig True Updated,
         UpdateCalled ''default'' (autoWeb\<lparr>Containers := [reloadedContainer]\<rparr>) None,
         MetricReloaded True, MetricReloadedByNamespace True ''default'', EventRecorded ''Reloaded''])"
proof -
  let ?item = "autoWeb\<lparr>Annotations := (Annotations autoWeb)
         (''configmaps.exclude.reloader.stakater.com/reload'' \<mapsto> ''db-settings, app-config '')\<rparr>"
  have 1: "excludeAnnotationFor sampleOptions appConfig
             = Some ''configmaps.exclude.reloader.stakater.com/reload''"
    by (simp add: excludeAnnotationFor_def sampleOptions_def appConfig_def)
  have 2: "Annotations ?item ''configmaps.exclude.reloader.stakater.com/reload''
             = Some ''db-settings, app-config ''"
    by simp
  have 3: "ResourceName appConfig \<in> set (map TrimSpace (Split ''db-settings, app-config '' CHR '',''))"
    by (simp add: appConfig_def TrimSpace_examples)
  have 4: "ResourceName appConfig \<noteq> []" by (simp add: appConfig_def)
  have run: "PerformActionOnSingleItem sampleOptions sampleRegexp autoWeb [appConfig] (deployments []) True
        envVarStrategy Map.empty
    = Inr (None, autoWeb\<lparr>Containers := [reloadedContainer]\<rparr>, Map.empty,
        [StrategyInvoked AutoReload appConfig True Updated,
         UpdateCalled ''default'' (autoWeb\<lparr>Containers := [reloadedContainer]\<rparr>) None,
         MetricReloaded True, MetricReloadedByNamespace True ''default'', EventRecorded ''Reloaded''])"
    by (simp add: eval_defs sample_defs)
  show ?thesis
    using excluded_config_is_skipped[OF 1 2 3 4, of sampleRegexp "deployments []" True envVarStrategy Map.empty]
      run by simp
qed

lemma invoke_Inr:
  "invoke site strat item config a = Inr (r, item', es) \<Longrightarrow> es = [StrategyInvoked site config a r]"
  by (auto simp: invoke_def split: sum.splits)

lemma manualLoop_sites:
  "manualLoop rx strat config vs r item = Inr (r', item', es) \<Longrightarrow>
   \<forall>e\<in>set es. \<exists>r''. e = StrategyInvoked ManualMatch config False r''"
proof (induction vs arbitrary: r item r' item' es)
  case Nil
  then show ?case by simp
next
  case (Cons v vs)
  show ?case
  proof (cases "rx (''^'' @ TrimSpace v @ ''$'') (ResourceName config)")
    case Match
    with Cons.prems obtain r1 item1 es1 where
      i: "invoke ManualMatch strat item config False = Inr (r1, item1, es1)"
      by (auto split: sum.splits)
    note e1 = invoke_Inr[OF i]
    show ?thesis
    proof (cases "r1 = Updated")
      case True
      with Cons.prems Match i e1 show ?thesis by auto
    next
      case False
      with Cons.prems Match i obtain es2 where
        "manualLoop rx strat config vs r1 item1 = Inr (r', item', es2)" "es = es1 @ es2"
        by (auto split: sum.splits)
      with Cons.IH e1 show ?thesis by auto
    qed
  next
    case NoMatch
    with Cons show ?thesis by auto
  next
    case CompilePanic
    with Cons.prems show ?thesis by simp
  qed
qed

lemma manualRule_sites:
  "manualRule rx strat config vals r item = Inr (r', item', es) \<Longrightarrow>
   \<forall>e\<in>set es. \<exists>r''. e = StrategyInvoked ManualMatch config False r''"
  by (auto simp: manualRule_def dest: manualLoop_sites split: if_splits)




lemma configStep_evaluated:
  assumes "\<not> isResourceExcluded K (ls_item ls) config" "\<not> deferred K (ls_item ls) (ls_registry ls)"
  shows "configStep K rx funcs rec strat config ls =
     (case evaluateRules K rx strat (ls_item ls) config of
        Inl p \<Rightarrow> Inl p
      | Inr (result, item', es) \<Rightarrow>
          Inr (ls\<lparr>lastUpdatedConfig := config, ls_item := item',
                 ls_effects := ls_effects ls @ es,
                 atLeastOneUpdate := (if result = Updated then Some Updated else atLeastOneUpdate ls)\<rparr>))"
  using assms
  by (auto simp: configStep_def deferred_def delayedUpgradeStep_def Let_def
        split: option.splits sum.splits)


lemma PerformActionOnSingleItem_single_Inr:
  assumes "PerformActionOnSingleItem K rx item [config] funcs rec strat reg = Inr (err, item', reg', es)"
  obtains ls' eu where
    "configStep K rx funcs rec strat config
       \<lparr>ls_item = item, ls_registry = reg, ls_effects = [],
        atLeastOneUpdate = None, lastUpdatedConfig = zeroConfig\<rparr> = Inr ls'"
    "applyUpdate K funcs rec ls' = (err, eu)" "es = ls_effects ls' @ eu"
    "item' = ls_item ls'" "reg' = ls_registry ls'"
proof (cases "configStep K rx funcs rec strat config
       \<lparr>ls_item = item, ls_registry = reg, ls_effects = [],
        atLeastOneUpdate = None, lastUpdatedConfig = zeroConfig\<rparr>")
  case (Inl p)
  with assms show ?thesis by (simp add: PerformActionOnSingleItem_single)
next
  case (Inr ls')
  obtain err' eu where u: "applyUpdate K funcs rec ls' = (err', eu)"
    by (cases "applyUpdate K funcs rec ls'") auto
  with assms Inr have "err' = err" "es = ls_effects ls' @ eu" "item' = ls_item ls'"
    "reg' = ls_registry ls'"
    by (simp_all add: PerformActionOnSingleItem_single)
  with that Inr u show ?thesis by simp
qed




subsection \<open>The flush removes the batch\<close>

lemma PerformDelayedUpgrade_found:
  assumes "DelayedUpgrades itemId = Some du"
    and "find (\<lambda>i. item_Name i = itemId) (ItemsFunc (upgradeFuncs du) (du_namespace du)) = Some item"
  shows "PerformDelayedUpgrade K rx rangeOrder itemId DelayedUpgrades =
     (case PerformActionOnSingleItem K rx item (flushConfigs rangeOrder du) (upgradeFuncs du)
             (recorder du) (strategy du) (DelayedUpgrades(itemId \<mapsto> du\<lparr>updating := True\<rparr>)) of
        Inl p \<Rightarrow> Inl p
      | Inr (err, i', registry2, es) \<Rightarrow> Inr (registry2(itemId := None), es))"
  using assms by (simp add: PerformDelayedUpgrade_def Let_def)

lemma PerformDelayedUpgrade_removes:
  assumes "DelayedUpgrades itemId = Some du"
    and "PerformDelayedUpgrade K rx rangeOrder itemId DelayedUpgrades = Inr (reg', es)"
  shows "reg' itemId = None"
proof (cases "find (\<lambda>i. item_Name i = itemId) (ItemsFunc (upgradeFuncs du) (du_namespace du))")
  case None
  with assms show ?thesis
    by (auto simp: PerformDelayedUpgrade_def Let_def split: if_splits)
next
  case (Some item)
  have "PerformDelayedUpgrade K rx rangeOrder itemId DelayedUpgrades =
     (case PerformActionOnSingleItem K rx item (flushConfigs rangeOrder du) (upgradeFuncs du)
             (recorder du) (strategy du) (DelayedUpgrades(itemId \<mapsto> du\<lparr>updating := True\<rparr>)) of
        Inl p \<Rightarrow> Inl p
      | Inr (err, i', registry2, es) \<Rightarrow> Inr (registry2(itemId := None), es))"
    using assms(1) Some by (rule PerformDelayedUpgrade_found)
  with assms(2) show ?thesis
    by (auto split: sum.splits)
qed

text \<open>
  C10. When \<^verbatim>\<open>PerformDelayedUpgrade\<close> runs for an item id that has a batch and
  returns, the registry has no entry for the id; and whatever the batched evaluation
  returns for the re-listed item, nil or an error, the flush returns the evaluation's
  registry with the entry deleted. (A panic inside the flush ends the process.)
\<close>

theorem flush_removes_batch:
  assumes "DelayedUpgrades itemId = Some du"
  shows "(\<forall>reg' es. PerformDelayedUpgrade K rx rangeOrder itemId DelayedUpgrades = Inr (reg', es)
            \<longrightarrow> reg' itemId = None)
       \<and> (\<forall>item err item' reg' es.
            find (\<lambda>i. item_Name i = itemId) (ItemsFunc (upgradeFuncs du) (du_namespace du)) = Some item
            \<and> PerformActionOnSingleItem K rx item (flushConfigs rangeOrder du) (upgradeFuncs du)
                 (recorder du) (strategy du) (DelayedUpgrades(itemId \<mapsto> du\<lparr>updating := True\<rparr>))
               = Inr (err, item', reg', es)
            \<longrightarrow> PerformDelayedUpgrade K rx rangeOrder itemId DelayedUpgrades
                  = Inr (reg'(itemId := None), es))"
proof (intro conjI allI impI)
  fix reg' es
  assume "PerformDelayedUpgrade K rx rangeOrder itemId DelayedUpgrades = Inr (reg', es)"
  with assms show "reg' itemId = None" by (rule PerformDelayedUpgrade_removes)
next
  fix item err item' reg' es
  assume h: "find (\<lambda>i. item_Name i = itemId) (ItemsFunc (upgradeFuncs du) (du_namespace du)) = Some item
      \<and> PerformActionOnSingleItem K rx item (flushConfigs rangeOrder du) (upgradeFuncs du)
           (recorder du) (strategy du) (DelayedUpgrades(itemId \<mapsto> du\<lparr>updating := True\<rparr>))
         = Inr (err, item', reg', es)"
  then have "find (\<lambda>i. item_Name i = itemId) (ItemsFunc (upgradeFuncs du) (du_namespace du)) = Some item"
    by simp
  with assms have "PerformDelayedUpgrade K rx rangeOrder itemId DelayedUpgrades =
     (case PerformActionOnSingleItem K rx item (flushConfigs rangeOrder du) (upgradeFuncs du)
             (recorder du) (strategy du) (DelayedUpgrades(itemId \<mapsto> du\<lparr>updating := True\<rparr>)) of
        Inl p \<Rightarrow> Inl p
      | Inr (err, i', registry2, es) \<Rightarrow> Inr (registry2(itemId := None), es))"
    by (rule PerformDelayedUpgrade_found)
  with h show "PerformDelayedUpgrade K rx rangeOrder itemId DelayedUpgrades
                  = Inr (reg'(itemId := None), es)"
    by simp
qed

lemmas flush_defs = PerformDelayedUpgrade_def flushConfigs_def pendingBatch_def delayedWeb_def

theorem flush_removes_batch_witness:
  "[''web'' \<mapsto> pendingBatch (failingDeployments [delayedWeb]) [appConfig]] ''web''
     = Some (pendingBatch (failingDeployments [delayedWeb]) [appConfig])
   \<and> PerformActionOnSingleItem sampleOptions sampleRegexp delayedWeb [appConfig]
        (failingDeployments [delayedWeb]) True envVarStrategy
        [''web'' \<mapsto> (pendingBatch (failingDeployments [delayedWeb]) [appConfig])\<lparr>updating := True\<rparr>]
      = Inr (Some ''conflict'', delayedWeb\<lparr>Containers := [reloadedContainer]\<rparr>,
          [''web'' \<mapsto> (pendingBatch (failingDeployments [delayedWeb]) [appConfig])\<lparr>updating := True\<rparr>],
          [StrategyInvoked AutoReload appConfig True Updated,
           UpdateCalled ''default'' (delayedWeb\<lparr>Containers := [reloadedContainer]\<rparr>) (Some ''conflict''),
           MetricReloaded False, MetricReloadedByNamespace False ''default'',
           EventRecorded ''ReloadFail''])
   \<and> PerformDelayedUpgrade sampleOptions sampleRegexp (\<lambda>cs. cs) ''web''
        [''web'' \<mapsto> pendingBatch (failingDeployments [delayedWeb]) [appConfig]]
      = Inr (Map.empty,
          [StrategyInvoked AutoReload appConfig True Updated,
           UpdateCalled ''default'' (delayedWeb\<lparr>Containers := [reloadedContainer]\<rparr>) (Some ''conflict''),
           MetricReloaded False, MetricReloadedByNamespace False ''default'',
           EventRecorded ''ReloadFail''])
   \<and> PerformDelayedUpgrade sampleOptions sampleRegexp (\<lambda>cs. cs) ''web''
        [''web'' \<mapsto> pendingBatch (deployments [delayedWeb]) [appConfig]]
      = Inr (Map.empty,
          [StrategyInvoked AutoReload appConfig True Updated,
           UpdateCalled ''default'' (delayedWeb\<lparr>Containers := [reloadedContainer]\<rparr>) None,
           MetricReloaded True, MetricReloadedByNamespace True ''default'',
           EventRecorded ''Reloaded''])"
proof -
  let ?du = "pendingBatch (failingDeployments [delayedWeb]) [appConfig]"
  let ?ok = "pendingBatch (deployments [delayedWeb]) [appConfig]"
  have b: "[''web'' \<mapsto> ?du] ''web'' = Some ?du" by simp
  have f: "find (\<lambda>i. item_Name i = ''web'') (ItemsFunc (upgradeFuncs ?du) (du_namespace ?du))
             = Some delayedWeb"
    by (simp add: flush_defs sample_defs)
  have run: "PerformActionOnSingleItem sampleOptions sampleRegexp delayedWeb
        (flushConfigs (\<lambda>cs. cs) ?du) (upgradeFuncs ?du) (recorder ?du) (strategy ?du)
        ([''web'' \<mapsto> ?du](''web'' \<mapsto> ?du\<lparr>updating := True\<rparr>))
      = Inr (Some ''conflict'', delayedWeb\<lparr>Containers := [reloadedContainer]\<rparr>,
          [''web'' \<mapsto> ?du\<lparr>updating := True\<rparr>],
          [StrategyInvoked AutoReload appConfig True Updated,
           UpdateCalled ''default'' (delayedWeb\<lparr>Containers := [reloadedContainer]\<rparr>) (Some ''conflict''),
           MetricReloaded False, MetricReloadedByNamespace False ''default'',
           EventRecorded ''ReloadFail''])"
    by (simp add: eval_defs flush_defs sample_defs)
  have ok: "PerformDelayedUpgrade sampleOptions sampleRegexp (\<lambda>cs. cs) ''web'' [''web'' \<mapsto> ?ok]
      = Inr (Map.empty,
          [StrategyInvoked AutoReload appConfig True Updated,
           UpdateCalled ''default'' (delayedWeb\<lparr>Containers := [reloadedContainer]\<rparr>) None,
           MetricReloaded True, MetricReloadedByNamespace True ''default'',
           EventRecorded ''Reloaded''])"
    by (simp add: eval_defs flush_defs sample_defs)
  from flush_removes_batch[where DelayedUpgrades = "[''web'' \<mapsto> ?du]" and itemId = "''web''"
      and du = ?du and K = sampleOptions and rx = sampleRegexp and rangeOrder = "\<lambda>cs. cs", OF b] f run
  have "PerformDelayedUpgrade sampleOptions sampleRegexp (\<lambda>cs. cs) ''web'' [''web'' \<mapsto> ?du]
      = Inr (([''web'' \<mapsto> ?du\<lparr>updating := True\<rparr>])(''web'' := None),
          [StrategyInvoked AutoReload appConfig True Updated,
           UpdateCalled ''default'' (delayedWeb\<lparr>Containers := [reloadedContainer]\<rparr>) (Some ''conflict''),
           MetricReloaded False, MetricReloadedByNamespace False ''default'',
           EventRecorded ''ReloadFail''])"
    by blast
  with b run ok show ?thesis by (simp add: flushConfigs_def pendingBatch_def)
qed

subsection \<open>Manual-annotation matching\<close>

lemma manualLoop_shape:
  assumes "manualLoop rx strat config vs r0 item = Inr (r, item', es)"
  shows "length es \<le> length (filter (\<lambda>v. rx (''^'' @ TrimSpace v @ ''$'') (ResourceName config) = Match) vs)
       \<and> (\<forall>e\<in>set (butlast es). e \<noteq> StrategyInvoked ManualMatch config False Updated)
       \<and> (length es < length (filter (\<lambda>v. rx (''^'' @ TrimSpace v @ ''$'') (ResourceName config) = Match) vs)
            \<longrightarrow> es \<noteq> [] \<and> last es = StrategyInvoked ManualMatch config False Updated)
       \<and> (es = [] \<longrightarrow> r = r0 \<and> item' = item)
       \<and> (es \<noteq> [] \<longrightarrow> last es = StrategyInvoked ManualMatch config False r)"
  using assms
proof (induction vs arbitrary: r0 item r item' es)
  case Nil
  then show ?case by simp
next
  case (Cons v vs)
  show ?case
  proof (cases "rx (''^'' @ TrimSpace v @ ''$'') (ResourceName config)")
    case Match
    with Cons.prems obtain r1 item1 es1 where
      i: "invoke ManualMatch strat item config False = Inr (r1, item1, es1)"
      by (auto split: sum.splits)
    note e1 = invoke_Inr[OF i]
    show ?thesis
    proof (cases "r1 = Updated")
      case True
      with Cons.prems Match i e1 show ?thesis by auto
    next
      case False
      with Cons.prems Match i obtain es2 where
        l: "manualLoop rx strat config vs r1 item1 = Inr (r, item', es2)" and es: "es = es1 @ es2"
        by (auto split: sum.splits)
      from Cons.IH[OF l] e1 es False Match show ?thesis
        by (auto simp: butlast_append)
    qed
  next
    case NoMatch
    with Cons.prems have "manualLoop rx strat config vs r0 item = Inr (r, item', es)" by simp
    from Cons.IH[OF this] NoMatch show ?thesis by simp
  next
    case CompilePanic
    with Cons.prems show ?thesis by simp
  qed
qed

lemma literal_anchored:
  "list_all plainChar lit \<Longrightarrow>
   literalRegexp (''^'' @ lit @ ''$'') t = Some (if t = lit then Match else NoMatch)"
  by (simp add: literalRegexp_def Let_def)

text \<open>The anchors matter: as a bare literal, \<^verbatim>\<open>foo\<close> is found in \<^verbatim>\<open>foobar\<close> and in \<^verbatim>\<open>xfoo\<close>.\<close>

lemma anchors_matter:
  "literalRegexp ''foo'' ''foobar'' = Some Match \<and> literalRegexp ''foo'' ''xfoo'' = Some Match
   \<and> literalRegexp ''^foo$'' ''foobar'' = Some NoMatch \<and> literalRegexp ''^foo$'' ''xfoo'' = Some NoMatch
   \<and> literalRegexp ''^foo$'' ''foo'' = Some Match"
  by (simp add: literalRegexp_def plainChar_def sublist_Cons_right)

lemma Split_bar_foo: "Split ''bar, foo '' CHR '','' = [''bar'', '' foo '']"
  by simp

lemma TrimSpace_bar_foo: "TrimSpace ''bar'' = ''bar''" "TrimSpace '' foo '' = ''foo''"
  by (simp_all add: TrimSpace_def asciiSpace_def unicodeSpaces_def)

lemma plain_bar_foo: "list_all plainChar ''bar''" "list_all plainChar ''foo''"
  by (simp_all add: plainChar_def)

lemma manualRule_bar_foo:
  assumes "agreesOnLiterals rx" "r0 \<noteq> Updated" "annotationValue vals = ''bar, foo ''"
  shows "manualRule rx strat config vals r0 item =
     (if ResourceName config = ''bar'' \<or> ResourceName config = ''foo''
      then manualLoop rx strat config [''bar'', '' foo ''] r0 item
      else Inr (r0, item, []))"
    and "ResourceName config = ''foo'' \<Longrightarrow>
      manualRule rx strat config vals r0 item =
        (case invoke ManualMatch strat item config False of
           Inl p \<Rightarrow> Inl p
         | Inr (r, item', es) \<Rightarrow> Inr (r, item', es))"
proof -
  have bar: "rx ''^bar$'' (ResourceName config) = (if ResourceName config = ''bar'' then Match else NoMatch)"
    using assms(1) literal_anchored[OF plain_bar_foo(1), of "ResourceName config"]
    by (simp add: agreesOnLiterals_def)
  have foo: "rx ''^foo$'' (ResourceName config) = (if ResourceName config = ''foo'' then Match else NoMatch)"
    using assms(1) literal_anchored[OF plain_bar_foo(2), of "ResourceName config"]
    by (simp add: agreesOnLiterals_def)
  show "manualRule rx strat config vals r0 item =
     (if ResourceName config = ''bar'' \<or> ResourceName config = ''foo''
      then manualLoop rx strat config [''bar'', '' foo ''] r0 item
      else Inr (r0, item, []))"
    using assms(2,3) bar foo
    by (simp add: manualRule_def Split_bar_foo TrimSpace_bar_foo)
  show "manualRule rx strat config vals r0 item =
        (case invoke ManualMatch strat item config False of
           Inl p \<Rightarrow> Inl p
         | Inr (r, item', es) \<Rightarrow> Inr (r, item', es))"
    if "ResourceName config = ''foo''"
    using assms(2,3) bar foo that
    by (auto simp: manualRule_def Split_bar_foo TrimSpace_bar_foo split: sum.splits)
qed

text \<open>
  C6. The manual rule splits the annotation value on commas and tests the resource name
  against the pattern \<^verbatim>\<open>^token$\<close> of each trimmed token. Every call it makes to the
  strategy has \<open>autoReload = False\<close>; there is at most one call per matching token; only
  the last call can have returned \<open>Updated\<close>, and when the rule runs (the result so far
  is not \<open>Updated\<close> and the value is not empty) and fewer calls were made than tokens
  match, the last one did (the loop stops at the first \<open>Updated\<close>); the rule's result is
  the last call's. For a regexp engine that treats anchored literals as Go's does, the
  value \<^verbatim>\<open>"bar, foo "\<close> makes the rule call the strategy for the resource \<^verbatim>\<open>foo\<close>, and
  call nothing for \<^verbatim>\<open>foobar\<close> or \<^verbatim>\<open>xfoo\<close>.
\<close>

theorem manual_rule_tokens:
  "(manualRule rx strat config vals r0 item = Inr (r, item', es) \<longrightarrow>
      (\<forall>e\<in>set es. \<exists>r'. e = StrategyInvoked ManualMatch config False r')
      \<and> length es \<le> length (filter
            (\<lambda>token. rx (''^'' @ TrimSpace token @ ''$'') (ResourceName config) = Match)
            (Split (annotationValue vals) CHR '',''))
      \<and> (\<forall>e\<in>set (butlast es). e \<noteq> StrategyInvoked ManualMatch config False Updated)
      \<and> (r0 \<noteq> Updated \<and> annotationValue vals \<noteq> []
          \<and> length es < length (filter
            (\<lambda>token. rx (''^'' @ TrimSpace token @ ''$'') (ResourceName config) = Match)
            (Split (annotationValue vals) CHR '',''))
          \<longrightarrow> es \<noteq> [] \<and> last es = StrategyInvoked ManualMatch config False Updated)
      \<and> (es = [] \<longrightarrow> r = r0 \<and> item' = item)
      \<and> (es \<noteq> [] \<longrightarrow> last es = StrategyInvoked ManualMatch config False r))
   \<and> (agreesOnLiterals rx \<and> r0 \<noteq> Updated \<and> annotationValue vals = ''bar, foo '' \<longrightarrow>
        (ResourceName config = ''foo'' \<longrightarrow>
           manualRule rx strat config vals r0 item =
             (case invoke ManualMatch strat item config False of
                Inl p \<Rightarrow> Inl p
              | Inr (r, item', es) \<Rightarrow> Inr (r, item', es)))
        \<and> (ResourceName config = ''foobar'' \<or> ResourceName config = ''xfoo'' \<longrightarrow>
           manualRule rx strat config vals r0 item = Inr (r0, item, [])))"
proof (intro conjI impI)
  assume h: "manualRule rx strat config vals r0 item = Inr (r, item', es)"
  show "\<forall>e\<in>set es. \<exists>r'. e = StrategyInvoked ManualMatch config False r'"
    using h by (rule manualRule_sites)
  have shape: "length es \<le> length (filter
            (\<lambda>token. rx (''^'' @ TrimSpace token @ ''$'') (ResourceName config) = Match)
            (Split (annotationValue vals) CHR '',''))
      \<and> (\<forall>e\<in>set (butlast es). e \<noteq> StrategyInvoked ManualMatch config False Updated)
      \<and> (r0 \<noteq> Updated \<and> annotationValue vals \<noteq> []
          \<and> length es < length (filter
            (\<lambda>token. rx (''^'' @ TrimSpace token @ ''$'') (ResourceName config) = Match)
            (Split (annotationValue vals) CHR '',''))
          \<longrightarrow> es \<noteq> [] \<and> last es = StrategyInvoked ManualMatch config False Updated)
      \<and> (es = [] \<longrightarrow> r = r0 \<and> item' = item)
      \<and> (es \<noteq> [] \<longrightarrow> last es = StrategyInvoked ManualMatch config False r)"
  proof (cases "r0 \<noteq> Updated \<and> annotationValue vals \<noteq> []")
    case True
    with h have "manualLoop rx strat config (Split (annotationValue vals) CHR '','') r0 item
        = Inr (r, item', es)"
      by (simp add: manualRule_def)
    from manualLoop_shape[OF this] show ?thesis by blast
  next
    case False
    with h have "es = []" "r = r0" "item' = item" by (auto simp: manualRule_def)
    with False show ?thesis by auto
  qed
  from shape show "length es \<le> length (filter
            (\<lambda>token. rx (''^'' @ TrimSpace token @ ''$'') (ResourceName config) = Match)
            (Split (annotationValue vals) CHR '',''))" by blast
  from shape show "\<forall>e\<in>set (butlast es). e \<noteq> StrategyInvoked ManualMatch config False Updated"
    by blast
  from shape show "es \<noteq> []"
    if "r0 \<noteq> Updated \<and> annotationValue vals \<noteq> []
          \<and> length es < length (filter
            (\<lambda>token. rx (''^'' @ TrimSpace token @ ''$'') (ResourceName config) = Match)
            (Split (annotationValue vals) CHR '',''))"
    using that by blast
  from shape show "last es = StrategyInvoked ManualMatch config False Updated"
    if "r0 \<noteq> Updated \<and> annotationValue vals \<noteq> []
          \<and> length es < length (filter
            (\<lambda>token. rx (''^'' @ TrimSpace token @ ''$'') (ResourceName config) = Match)
            (Split (annotationValue vals) CHR '',''))"
    using that by blast
  from shape show "r = r0" if "es = []" using that by blast
  from shape show "item' = item" if "es = []" using that by blast
  from shape show "last es = StrategyInvoked ManualMatch config False r" if "es \<noteq> []"
    using that by blast
next
  assume a: "agreesOnLiterals rx \<and> r0 \<noteq> Updated \<and> annotationValue vals = ''bar, foo ''"
  then have a1: "agreesOnLiterals rx" and a2: "r0 \<noteq> Updated"
    and a3: "annotationValue vals = ''bar, foo ''"
    by simp_all
  show "manualRule rx strat config vals r0 item =
             (case invoke ManualMatch strat item config False of
                Inl p \<Rightarrow> Inl p
              | Inr (r, item', es) \<Rightarrow> Inr (r, item', es))"
    if "ResourceName config = ''foo''"
    using manualRule_bar_foo(2)[OF a1 a2 a3 that] .
  show "manualRule rx strat config vals r0 item = Inr (r0, item, [])"
    if "ResourceName config = ''foobar'' \<or> ResourceName config = ''xfoo''"
    using manualRule_bar_foo(1)[OF a1 a2 a3, of strat config item] that by auto
qed
lemma sampleRegexp_agrees: "agreesOnLiterals sampleRegexp"
  by (simp add: agreesOnLiterals_def sampleRegexp_def)

lemmas rx_defs = sampleRegexp_def literalRegexp_def plainChar_def TrimSpace_def asciiSpace_def
  unicodeSpaces_def fooConfig_def manualValues_def

theorem manual_rule_tokens_witness:
  "agreesOnLiterals sampleRegexp
   \<and> manualRule sampleRegexp envVarStrategy fooConfig (manualValues ''bar, foo '') NotUpdated web
     = Inr (Updated,
         web\<lparr>Containers := [appContainer\<lparr>Env :=
           [\<lparr>env_Name = ''STAKATER_FOO_CONFIGMAP'', env_Value = ''def456'', ValueFrom = None\<rparr>]\<rparr>]\<rparr>,
         [StrategyInvoked ManualMatch fooConfig False Updated])
   \<and> manualRule sampleRegexp envVarStrategy fooConfig (manualValues ''foo,foo'') NotUpdated web
     = Inr (Updated,
         web\<lparr>Containers := [appContainer\<lparr>Env :=
           [\<lparr>env_Name = ''STAKATER_FOO_CONFIGMAP'', env_Value = ''def456'', ValueFrom = None\<rparr>]\<rparr>]\<rparr>,
         [StrategyInvoked ManualMatch fooConfig False Updated])
   \<and> length (filter (\<lambda>token. sampleRegexp (''^'' @ TrimSpace token @ ''$'') (ResourceName fooConfig) = Match)
        (Split (annotationValue (manualValues ''foo,foo'')) CHR '','')) = 2
   \<and> manualRule sampleRegexp envVarStrategy (fooConfig\<lparr>ResourceName := ''foobar''\<rparr>)
        (manualValues ''bar, foo '') NotUpdated web
     = Inr (NotUpdated, web, [])
   \<and> manualRule sampleRegexp envVarStrategy (fooConfig\<lparr>ResourceName := ''xfoo''\<rparr>)
        (manualValues ''bar, foo '') NotUpdated web
     = Inr (NotUpdated, web, [])"
proof -
  have run: "manualRule sampleRegexp envVarStrategy fooConfig (manualValues ''bar, foo '') NotUpdated web
     = Inr (Updated,
         web\<lparr>Containers := [appContainer\<lparr>Env :=
           [\<lparr>env_Name = ''STAKATER_FOO_CONFIGMAP'', env_Value = ''def456'', ValueFrom = None\<rparr>]\<rparr>]\<rparr>,
         [StrategyInvoked ManualMatch fooConfig False Updated])"
    by (simp add: eval_defs sample_defs rx_defs)
  have twice: "manualRule sampleRegexp envVarStrategy fooConfig (manualValues ''foo,foo'') NotUpdated web
     = Inr (Updated,
         web\<lparr>Containers := [appContainer\<lparr>Env :=
           [\<lparr>env_Name = ''STAKATER_FOO_CONFIGMAP'', env_Value = ''def456'', ValueFrom = None\<rparr>]\<rparr>]\<rparr>,
         [StrategyInvoked ManualMatch fooConfig False Updated])"
    by (simp add: eval_defs sample_defs rx_defs)
  have two: "length (filter (\<lambda>token. sampleRegexp (''^'' @ TrimSpace token @ ''$'') (ResourceName fooConfig) = Match)
        (Split (annotationValue (manualValues ''foo,foo'')) CHR '','')) = 2"
    by (simp add: sample_defs rx_defs)
  have v: "annotationValue (manualValues ''bar, foo '') = ''bar, foo ''"
    by (simp add: manualValues_def)
  have n1: "ResourceName (fooConfig\<lparr>ResourceName := ''foobar''\<rparr>) = ''foobar''"
    and n2: "ResourceName (fooConfig\<lparr>ResourceName := ''xfoo''\<rparr>) = ''xfoo''"
    by simp_all
  note t1 = manual_rule_tokens[where rx = sampleRegexp and strat = envVarStrategy
      and config = "fooConfig\<lparr>ResourceName := ''foobar''\<rparr>" and vals = "manualValues ''bar, foo ''"
      and ?r0.0 = NotUpdated and item = web]
  note t2 = manual_rule_tokens[where rx = sampleRegexp and strat = envVarStrategy
      and config = "fooConfig\<lparr>ResourceName := ''xfoo''\<rparr>" and vals = "manualValues ''bar, foo ''"
      and ?r0.0 = NotUpdated and item = web]
  note t3 = manual_rule_tokens[where rx = sampleRegexp and strat = envVarStrategy
      and config = fooConfig and vals = "manualValues ''foo,foo''"
      and ?r0.0 = NotUpdated and item = web, THEN conjunct1, rule_format, OF twice]
  have a: "manualRule sampleRegexp envVarStrategy (fooConfig\<lparr>ResourceName := ''foobar''\<rparr>)
        (manualValues ''bar, foo '') NotUpdated web = Inr (NotUpdated, web, [])"
    using t1 sampleRegexp_agrees v n1 by simp
  have b: "manualRule sampleRegexp envVarStrategy (fooConfig\<lparr>ResourceName := ''xfoo''\<rparr>)
        (manualValues ''bar, foo '') NotUpdated web = Inr (NotUpdated, web, [])"
    using t2 sampleRegexp_agrees v n2 by simp
  show ?thesis using sampleRegexp_agrees run twice two a b t3 by simp
qed

subsection \<open>The env-var strategy applied twice\<close>

lemma updateEnvs_Updated:
  "updateEnvs es n v = (Updated, es') \<Longrightarrow>
   map_option env_Value (find (\<lambda>e. env_Name e = n) es') = Some v"
  by (induction es arbitrary: es') (auto split: if_splits prod.splits)

lemma updateEnvs_refs:
  "updateEnvs es n v = (r, es') \<Longrightarrow>
   list_ex (envVarRefers K rn rt) es' = list_ex (envVarRefers K rn rt) es"
  by (induction es arbitrary: r es') (auto simp: envVarRefers_def split: if_splits prod.splits)

lemma updateEnvs_result:
  "fst (updateEnvs es n v) =
     (case find (\<lambda>e. env_Name e = n) es of
        None \<Rightarrow> NoEnvVarFound
      | Some e \<Rightarrow> if env_Value e = v then NotUpdated else Updated)"
  by (induction es) (auto split: option.splits prod.splits)

lemma find_append_cases:
  "find P (xs @ ys) = (case find P xs of None \<Rightarrow> find P ys | Some x \<Rightarrow> Some x)"
  by (induction xs) auto

lemma currentEnvValue_Cons:
  "currentEnvValue (c # cs) n =
     (case find (\<lambda>e. env_Name e = n) (Env c) of
        None \<Rightarrow> currentEnvValue cs n
      | Some e \<Rightarrow> Some (env_Value e))"
  by (simp add: currentEnvValue_def find_append_cases split: option.splits)

lemma updateEnvVar_result:
  "fst (updateEnvVar cs n v) =
     (case currentEnvValue cs n of
        None \<Rightarrow> NoEnvVarFound
      | Some w \<Rightarrow> if w = v then NotUpdated else Updated)"
proof (induction cs)
  case Nil
  then show ?case by (simp add: currentEnvValue_def)
next
  case (Cons c cs)
  obtain r es' where u: "updateEnvs (Env c) n v = (r, es')" by (cases "updateEnvs (Env c) n v") auto
  then have r: "r = (case find (\<lambda>e. env_Name e = n) (Env c) of
        None \<Rightarrow> NoEnvVarFound
      | Some e \<Rightarrow> if env_Value e = v then NotUpdated else Updated)"
    using updateEnvs_result[of "Env c" n v] by simp
  show ?case
  proof (cases "find (\<lambda>e. env_Name e = n) (Env c)")
    case None
    with r u Cons show ?thesis
      by (auto simp: currentEnvValue_Cons split: prod.splits)
  next
    case (Some e)
    with r u show ?thesis
      by (auto simp: currentEnvValue_Cons)
  qed
qed

lemma updateEnvs_unchanged:
  "fst (updateEnvs es n v) \<noteq> Updated \<Longrightarrow> snd (updateEnvs es n v) = es"
  by (induction es) (auto split: if_splits prod.splits)

lemma updateEnvVar_unchanged:
  "fst (updateEnvVar cs n v) \<noteq> Updated \<Longrightarrow> snd (updateEnvVar cs n v) = cs"
proof (induction cs)
  case Nil
  then show ?case by simp
next
  case (Cons c cs)
  obtain r es' where u: "updateEnvs (Env c) n v = (r, es')" by (cases "updateEnvs (Env c) n v") auto
  have es': "r \<noteq> Updated \<Longrightarrow> es' = Env c"
    using u updateEnvs_unchanged[of "Env c" n v] by simp
  show ?case
  proof (cases r)
    case NoEnvVarFound
    with u Cons show ?thesis by (auto split: prod.splits)
  next
    case Updated
    with u Cons.prems show ?thesis by simp
  next
    case NotUpdated
    with u es' show ?thesis by simp
  next
    case NoContainerFound
    with u es' show ?thesis by simp
  qed
qed

lemma updateEnvVar_Updated:
  "updateEnvVar cs n v = (Updated, cs') \<Longrightarrow> currentEnvValue cs' n = Some v"
proof (induction cs arbitrary: cs')
  case Nil
  then show ?case by simp
next
  case (Cons c cs)
  obtain r es' where u: "updateEnvs (Env c) n v = (r, es')" by (cases "updateEnvs (Env c) n v") auto
  show ?case
  proof (cases "r = NoEnvVarFound")
    case True
    with u Cons.prems obtain cs2 where
      2: "updateEnvVar cs n v = (Updated, cs2)" "cs' = c # cs2"
      by (auto split: prod.splits)
    from True u have "find (\<lambda>e. env_Name e = n) (Env c) = None"
      using updateEnvs_result[of "Env c" n v] by (auto split: option.splits if_splits)
    with Cons.IH[OF 2(1)] 2(2) show ?thesis by (simp add: currentEnvValue_Cons)
  next
    case False
    with u Cons.prems have 3: "r = Updated" "cs' = c\<lparr>Env := es'\<rparr> # cs"
      by (cases r; simp)+
    with u updateEnvs_Updated[of "Env c" n v es'] show ?thesis
      by (auto simp: currentEnvValue_Cons split: option.splits)
  qed
qed

lemma updateEnvVar_refs:
  "updateEnvVar cs n v = (r, cs') \<Longrightarrow> list_all2 (sameRefs K rn rt) cs cs'"
proof (induction cs arbitrary: r cs')
  case Nil
  then show ?case by simp
next
  case (Cons c cs)
  have refl: "list_all2 (sameRefs K rn rt) cs cs"
    by (simp add: list_all2_same sameRefs_def)
  obtain r1 es' where u: "updateEnvs (Env c) n v = (r1, es')" by (cases "updateEnvs (Env c) n v") auto
  note e = updateEnvs_refs[OF u, of K rn rt]
  show ?case
  proof (cases "r1 = NoEnvVarFound")
    case True
    with u Cons.prems obtain cs2 where
      2: "updateEnvVar cs n v = (r, cs2)" "cs' = c # cs2"
      by (auto split: prod.splits)
    moreover have "sameRefs K rn rt c c" by (simp add: sameRefs_def)
    ultimately show ?thesis using Cons.IH[OF 2(1)] by simp
  next
    case False
    with u Cons.prems have "cs' = c\<lparr>Env := es'\<rparr> # cs"
      by (cases r1; simp)+
    moreover have "sameRefs K rn rt c (c\<lparr>Env := es'\<rparr>)"
      using e by (simp add: sameRefs_def)
    ultimately show ?thesis using refl by simp
  qed
qed

lemma append_env_refs:
  assumes "i < length cs"
  shows "list_all2 (sameRefs K rn rt) cs
           (cs[i := (cs ! i)\<lparr>Env := Env (cs ! i) @ [\<lparr>env_Name = n, env_Value = v, ValueFrom = None\<rparr>]\<rparr>])"
  using assms
  by (auto simp: list_all2_conv_all_nth sameRefs_def nth_list_update envVarRefers_def)

lemma append_env_current:
  assumes "i < length cs" "currentEnvValue cs n = None"
  shows "currentEnvValue
           (cs[i := (cs ! i)\<lparr>Env := Env (cs ! i) @ [\<lparr>env_Name = n, env_Value = v, ValueFrom = None\<rparr>]\<rparr>]) n
         = Some v"
  using assms
proof (induction cs arbitrary: i)
  case Nil
  then show ?case by simp
next
  case (Cons c cs)
  from Cons.prems(2) have none: "find (\<lambda>e. env_Name e = n) (Env c) = None"
    and rest: "currentEnvValue cs n = None"
    by (auto simp: currentEnvValue_Cons split: option.splits)
  show ?case
  proof (cases i)
    case 0
    with none show ?thesis by (simp add: currentEnvValue_Cons find_append_cases)
  next
    case (Suc j)
    with Cons.prems(1) have "j < length cs" by simp
    from Cons.IH[OF this rest] Suc none show ?thesis by (simp add: currentEnvValue_Cons)
  qed
qed

lemma firstIndex_cong_all2:
  "list_all2 (\<lambda>x y. P x = Q y) xs ys \<Longrightarrow> firstIndex Q ys = firstIndex P xs"
  by (induction xs ys rule: list_all2_induct) auto

lemma sameRefs_scanner:
  assumes "list_all2 (sameRefs K rn rt) cs cs'"
  shows "getContainerWithVolumeMount cs' m = getContainerWithVolumeMount cs m"
    and "getContainerWithEnvReference K cs' rn rt = getContainerWithEnvReference K cs rn rt"
    and "(cs' = []) = (cs = [])"
proof -
  have "list_all2 (\<lambda>c c'. list_ex (\<lambda>x. vm_Name x = m) (VolumeMounts c)
          = list_ex (\<lambda>x. vm_Name x = m) (VolumeMounts c')) cs cs'"
    using assms by (rule list_all2_mono) (simp add: sameRefs_def)
  then show "getContainerWithVolumeMount cs' m = getContainerWithVolumeMount cs m"
    unfolding getContainerWithVolumeMount_def by (rule firstIndex_cong_all2)
  have "list_all2 (\<lambda>c c'. (list_ex (envVarRefers K rn rt) (Env c) \<or> list_ex (envFromRefers K rn rt) (EnvFrom c))
          = (list_ex (envVarRefers K rn rt) (Env c') \<or> list_ex (envFromRefers K rn rt) (EnvFrom c'))) cs cs'"
    using assms by (rule list_all2_mono) (simp add: sameRefs_def)
  then show "getContainerWithEnvReference K cs' rn rt = getContainerWithEnvReference K cs rn rt"
    unfolding getContainerWithEnvReference_def by (rule firstIndex_cong_all2)
  show "(cs' = []) = (cs = [])"
    using assms by (auto dest: list_all2_lengthD)
qed

lemma sameRefs_resolver:
  assumes "list_all2 (sameRefs K (ResourceName config) (cfg_Type config)) (Containers item) cs'"
  shows "getContainerUsingResource K (item\<lparr>Containers := cs'\<rparr>) config a
         = getContainerUsingResource K item config a"
  using sameRefs_scanner[OF assms]
  by (simp add: getContainerUsingResource_def Let_def firstContainer_def)

lemma resolver_index_in_range:
  assumes "getContainerUsingResource K item config a = Inr (Some i)"
  shows "i < length (Containers item)"
proof -
  have f: "firstContainer (Containers item) = Inr (Some i) \<Longrightarrow> i < length (Containers item)"
    by (auto simp: firstContainer_def split: if_splits)
  have m: "getContainerWithVolumeMount (Containers item) nm = Some i \<Longrightarrow> i < length (Containers item)"
    for nm
    unfolding getContainerWithVolumeMount_def by (drule firstIndex_less) simp
  have e: "getContainerWithEnvReference K (Containers item) (ResourceName config) (cfg_Type config) = Some i
      \<Longrightarrow> i < length (Containers item)"
    unfolding getContainerWithEnvReference_def by (drule firstIndex_less) simp
  from assms f m e show ?thesis
    by (auto simp: getContainerUsingResource_def Let_def split: if_splits)
qed

lemma updateContainerEnvVars_resolved:
  assumes "getContainerUsingResource K item config a = Inr (Some i)"
  shows "updateContainerEnvVars K conv item config a =
     (if fst (updateEnvVar (Containers item) (getEnvVarName K conv (ResourceName config) (cfg_Type config))
                (SHAValue config)) = NoEnvVarFound
      then Inr (Updated,
             item\<lparr>Containers := (Containers item)[i := (Containers item ! i)\<lparr>Env :=
               Env (Containers item ! i) @
                 [\<lparr>env_Name = getEnvVarName K conv (ResourceName config) (cfg_Type config),
                   env_Value = SHAValue config, ValueFrom = None\<rparr>]\<rparr>]\<rparr>)
      else Inr (fst (updateEnvVar (Containers item)
                       (getEnvVarName K conv (ResourceName config) (cfg_Type config)) (SHAValue config)),
                item\<lparr>Containers := snd (updateEnvVar (Containers item)
                       (getEnvVarName K conv (ResourceName config) (cfg_Type config)) (SHAValue config))\<rparr>))"
  using assms
  by (simp add: updateContainerEnvVars_def Let_def split: prod.splits Result.splits)

lemma updateContainerEnvVars_current:
  assumes "getContainerUsingResource K item config a = Inr (Some i)"
    and "currentEnvValue (Containers item) (getEnvVarName K conv (ResourceName config) (cfg_Type config))
           = Some (SHAValue config)"
  shows "updateContainerEnvVars K conv item config a = Inr (NotUpdated, item)"
proof -
  let ?n = "getEnvVarName K conv (ResourceName config) (cfg_Type config)"
  have r: "fst (updateEnvVar (Containers item) ?n (SHAValue config)) = NotUpdated"
    using assms(2) by (simp add: updateEnvVar_result)
  then have "snd (updateEnvVar (Containers item) ?n (SHAValue config)) = Containers item"
    by (simp add: updateEnvVar_unchanged)
  with r show ?thesis
    unfolding updateContainerEnvVars_resolved[OF assms(1)] by simp
qed

text \<open>
  C5, as amended. When a consuming container is resolved, the first application of the
  env-var strategy yields \<open>NotUpdated\<close> if the first env variable of the derived name
  over the regular containers already holds the content hash, and \<open>Updated\<close> otherwise
  (the variable is absent, or its value differs); a second application to the resulting
  item with the same config yields \<open>NotUpdated\<close> and returns the item as it was, so no
  container's env list changes.
\<close>

theorem env_var_strategy_twice:
  assumes "getContainerUsingResource K item config a = Inr (Some i)"
  shows "\<exists>item1.
      updateContainerEnvVars K conv item config a
        = Inr (if currentEnvValue (Containers item)
                    (getEnvVarName K conv (ResourceName config) (cfg_Type config))
                  = Some (SHAValue config)
               then NotUpdated else Updated, item1)
      \<and> updateContainerEnvVars K conv item1 config a = Inr (NotUpdated, item1)"
proof -
  let ?n = "getEnvVarName K conv (ResourceName config) (cfg_Type config)"
  let ?v = "SHAValue config"
  let ?cs = "Containers item"
  note res = updateEnvVar_result[of ?cs ?n ?v]
  show ?thesis
  proof (cases "currentEnvValue ?cs ?n")
    case None
    let ?cs1 = "?cs[i := (?cs ! i)\<lparr>Env := Env (?cs ! i) @
        [\<lparr>env_Name = ?n, env_Value = ?v, ValueFrom = None\<rparr>]\<rparr>]"
    let ?item1 = "item\<lparr>Containers := ?cs1\<rparr>"
    have i: "i < length ?cs" using assms by (rule resolver_index_in_range)
    have first: "updateContainerEnvVars K conv item config a = Inr (Updated, ?item1)"
      unfolding updateContainerEnvVars_resolved[OF assms] using res None by simp
    have "list_all2 (sameRefs K (ResourceName config) (cfg_Type config)) ?cs ?cs1"
      using i by (rule append_env_refs)
    then have "getContainerUsingResource K ?item1 config a = getContainerUsingResource K item config a"
      by (rule sameRefs_resolver)
    with assms have r1: "getContainerUsingResource K ?item1 config a = Inr (Some i)" by simp
    have "currentEnvValue (Containers ?item1) ?n = Some ?v"
      using append_env_current[OF i None] by simp
    with r1 have "updateContainerEnvVars K conv ?item1 config a = Inr (NotUpdated, ?item1)"
      by (rule updateContainerEnvVars_current)
    with first None show ?thesis by (intro exI[of _ ?item1]) simp
  next
    case (Some w)
    show ?thesis
    proof (cases "w = ?v")
      case True
      with Some have cur: "currentEnvValue ?cs ?n = Some ?v" by simp
      with assms have "updateContainerEnvVars K conv item config a = Inr (NotUpdated, item)"
        by (rule updateContainerEnvVars_current)
      with cur show ?thesis by (intro exI[of _ item]) simp
    next
      case False
      obtain cs1 where u: "updateEnvVar ?cs ?n ?v = (Updated, cs1)"
        using res Some False by (cases "updateEnvVar ?cs ?n ?v") auto
      let ?item1 = "item\<lparr>Containers := cs1\<rparr>"
      have first: "updateContainerEnvVars K conv item config a = Inr (Updated, ?item1)"
        unfolding updateContainerEnvVars_resolved[OF assms] using u by simp
      have "list_all2 (sameRefs K (ResourceName config) (cfg_Type config)) ?cs cs1"
        using u by (rule updateEnvVar_refs)
      then have "getContainerUsingResource K ?item1 config a = getContainerUsingResource K item config a"
        by (rule sameRefs_resolver)
      with assms have r1: "getContainerUsingResource K ?item1 config a = Inr (Some i)" by simp
      have "currentEnvValue (Containers ?item1) ?n = Some ?v"
        using updateEnvVar_Updated[OF u] by simp
      with r1 have "updateContainerEnvVars K conv ?item1 config a = Inr (NotUpdated, ?item1)"
        by (rule updateContainerEnvVars_current)
      with first Some False show ?thesis by (intro exI[of _ ?item1]) simp
    qed
  qed
qed

theorem env_var_strategy_twice_witness:
  "getContainerUsingResource sampleOptions autoWeb appConfig True = Inr (Some 0)
   \<and> updateContainerEnvVars sampleOptions ConvertToEnvVarName autoWeb appConfig True
       = Inr (Updated, reloadedWeb)
   \<and> updateContainerEnvVars sampleOptions ConvertToEnvVarName reloadedWeb appConfig True
       = Inr (NotUpdated, reloadedWeb)
   \<and> currentEnvValue (Containers autoWeb)
        (getEnvVarName sampleOptions ConvertToEnvVarName (ResourceName appConfig) (cfg_Type appConfig))
       = None"
proof -
  have r: "getContainerUsingResource sampleOptions autoWeb appConfig True = Inr (Some 0)"
    by (simp add: eval_defs sample_defs)
  have c: "currentEnvValue (Containers autoWeb)
        (getEnvVarName sampleOptions ConvertToEnvVarName (ResourceName appConfig) (cfg_Type appConfig))
       = None"
    by (simp add: currentEnvValue_def sample_defs)
  have f: "updateContainerEnvVars sampleOptions ConvertToEnvVarName autoWeb appConfig True
       = Inr (Updated, reloadedWeb)"
    by (simp add: eval_defs sample_defs reloadedWeb_def)
  from env_var_strategy_twice[OF r, of ConvertToEnvVarName] c f
  have "updateContainerEnvVars sampleOptions ConvertToEnvVarName reloadedWeb appConfig True
       = Inr (NotUpdated, reloadedWeb)"
    by auto
  with r c f show ?thesis by simp
qed

text \<open>
  The claim as stated fails: for the sample deployment whose container already carries
  the variable with the content hash of the change, a consuming container is resolved
  and the first application yields \<open>NotUpdated\<close>.
\<close>

theorem env_var_first_application_counterexample:
  "getContainerUsingResource sampleOptions reloadedWeb appConfig True = Inr (Some 0)
   \<and> updateContainerEnvVars sampleOptions ConvertToEnvVarName reloadedWeb appConfig True
       = Inr (NotUpdated, reloadedWeb)
   \<and> NotUpdated \<noteq> Updated"
  by (simp add: eval_defs sample_defs reloadedWeb_def)

subsection \<open>The pending batch\<close>

lemma configStep_deferred:
  assumes "\<not> isResourceExcluded K (ls_item ls) config"
    and "Annotations (ls_item ls) (DelayedUpgradeAnnotation K) \<noteq> None"
  shows "ls_registry ls (item_Name (ls_item ls)) = None \<Longrightarrow>
     configStep K rx funcs rec strat config ls =
       Inr (ls\<lparr>lastUpdatedConfig := config,
              ls_registry := (ls_registry ls)(item_Name (ls_item ls) \<mapsto>
                \<lparr>ItemID = item_Name (ls_item ls), du_namespace = cfg_Namespace config,
                 configs = [(ResourceName config, config)], upgradeFuncs = funcs,
                 recorder = rec, strategy = strat, updating = False\<rparr>),
              ls_effects := ls_effects ls @ [TimerStarted (item_Name (ls_item ls)) debounceSeconds]\<rparr>)"
    and "ls_registry ls (item_Name (ls_item ls)) = Some du \<Longrightarrow> \<not> updating du \<Longrightarrow>
     configStep K rx funcs rec strat config ls =
       Inr (ls\<lparr>lastUpdatedConfig := config,
              ls_registry :=
                (if map_of (configs du) (ResourceName config) \<noteq> None then ls_registry ls
                 else (ls_registry ls)(item_Name (ls_item ls) \<mapsto>
                        du\<lparr>configs := configs du @ [(ResourceName config, config)]\<rparr>))\<rparr>)"
  using assms
  by (auto simp: configStep_def delayedUpgradeStep_def Let_def)

lemma single_deferred_new:
  assumes "\<not> isResourceExcluded K item config"
    and "Annotations item (DelayedUpgradeAnnotation K) \<noteq> None"
    and "DelayedUpgrades (item_Name item) = None"
  shows "PerformActionOnSingleItem K rx item [config] funcs rec strat DelayedUpgrades =
     Inr (None, item,
          DelayedUpgrades(item_Name item \<mapsto>
            \<lparr>ItemID = item_Name item, du_namespace = cfg_Namespace config,
             configs = [(ResourceName config, config)], upgradeFuncs = funcs,
             recorder = rec, strategy = strat, updating = False\<rparr>),
          [TimerStarted (item_Name item) debounceSeconds])"
  using assms
  by (simp add: PerformActionOnSingleItem_single configStep_deferred(1) applyUpdate_def)

lemma single_deferred_pending:
  assumes "\<not> isResourceExcluded K item config"
    and "Annotations item (DelayedUpgradeAnnotation K) \<noteq> None"
    and "DelayedUpgrades (item_Name item) = Some du" "\<not> updating du"
  shows "PerformActionOnSingleItem K rx item [config] funcs rec strat DelayedUpgrades =
     Inr (None, item,
          (if map_of (configs du) (ResourceName config) \<noteq> None then DelayedUpgrades
           else DelayedUpgrades(item_Name item \<mapsto>
                  du\<lparr>configs := configs du @ [(ResourceName config, config)]\<rparr>)),
          [])"
proof -
  let ?ls = "\<lparr>ls_item = item, ls_registry = DelayedUpgrades, ls_effects = [],
              atLeastOneUpdate = None, lastUpdatedConfig = zeroConfig\<rparr>"
  have "configStep K rx funcs rec strat config ?ls =
       Inr (?ls\<lparr>lastUpdatedConfig := config,
              ls_registry :=
                (if map_of (configs du) (ResourceName config) \<noteq> None then ls_registry ?ls
                 else (ls_registry ?ls)(item_Name (ls_item ?ls) \<mapsto>
                        du\<lparr>configs := configs du @ [(ResourceName config, config)]\<rparr>))\<rparr>)"
    using assms by (intro configStep_deferred(2)) simp_all
  then show ?thesis
    by (simp add: PerformActionOnSingleItem_single applyUpdate_def)
qed

lemma deliver_pending:
  assumes "Annotations item (DelayedUpgradeAnnotation K) \<noteq> None"
    and "\<forall>c\<in>set cs. \<not> isResourceExcluded K item c"
    and "DelayedUpgrades (item_Name item) = Some du" "\<not> updating du"
    and "distinct (map fst (configs du))"
  shows "\<exists>du'. deliver K rx funcs rec strat item cs DelayedUpgrades
             = Inr (DelayedUpgrades(item_Name item \<mapsto> du'))
           \<and> \<not> updating du' \<and> distinct (map fst (configs du'))
           \<and> map_of (configs du') = map_of (configs du @ map (\<lambda>c. (ResourceName c, c)) cs)
           \<and> du'\<lparr>configs := configs du\<rparr> = du"
  using assms
proof (induction cs arbitrary: DelayedUpgrades du)
  case Nil
  then show ?case by (intro exI[of _ du]) (simp add: fun_upd_idem)
next
  case (Cons c cs)
  from Cons.prems have x: "\<not> isResourceExcluded K item c" by simp
  have step: "PerformActionOnSingleItem K rx item [c] funcs rec strat DelayedUpgrades =
     Inr (None, item,
          (if map_of (configs du) (ResourceName c) \<noteq> None then DelayedUpgrades
           else DelayedUpgrades(item_Name item \<mapsto>
                  du\<lparr>configs := configs du @ [(ResourceName c, c)]\<rparr>)),
          [])"
    using x Cons.prems(1) Cons.prems(3) Cons.prems(4) by (rule single_deferred_pending)
  show ?case
  proof (cases "map_of (configs du) (ResourceName c) \<noteq> None")
    case True
    with step have s: "PerformActionOnSingleItem K rx item [c] funcs rec strat DelayedUpgrades
        = Inr (None, item, DelayedUpgrades, [])" by simp
    from Cons.prems have rest: "\<forall>c\<in>set cs. \<not> isResourceExcluded K item c" by simp
    have "\<exists>du'. deliver K rx funcs rec strat item cs DelayedUpgrades
             = Inr (DelayedUpgrades(item_Name item \<mapsto> du'))
           \<and> \<not> updating du' \<and> distinct (map fst (configs du'))
           \<and> map_of (configs du') = map_of (configs du @ map (\<lambda>c. (ResourceName c, c)) cs)
           \<and> du'\<lparr>configs := configs du\<rparr> = du"
      using Cons.prems(1) rest Cons.prems(3) Cons.prems(4) Cons.prems(5) by (rule Cons.IH)
    then obtain du' where d: "deliver K rx funcs rec strat item cs DelayedUpgrades
             = Inr (DelayedUpgrades(item_Name item \<mapsto> du'))"
      "\<not> updating du'" "distinct (map fst (configs du'))"
      "map_of (configs du') = map_of (configs du @ map (\<lambda>c. (ResourceName c, c)) cs)"
      "du'\<lparr>configs := configs du\<rparr> = du"
      by blast
    from True have m: "map_of (configs du @ map (\<lambda>c. (ResourceName c, c)) (c # cs))
        = map_of (configs du @ map (\<lambda>c. (ResourceName c, c)) cs)"
      by (auto simp: map_add_def fun_eq_iff split: option.splits)
    show ?thesis
    proof (intro exI[of _ du'] conjI)
      show "deliver K rx funcs rec strat item (c # cs) DelayedUpgrades
          = Inr (DelayedUpgrades(item_Name item \<mapsto> du'))"
        using s d(1) by simp
      show "map_of (configs du') = map_of (configs du @ map (\<lambda>c. (ResourceName c, c)) (c # cs))"
        unfolding m by (rule d(4))
    qed (rule d(2) d(3) d(5))+
  next
    case False
    let ?du1 = "du\<lparr>configs := configs du @ [(ResourceName c, c)]\<rparr>"
    let ?reg1 = "DelayedUpgrades(item_Name item \<mapsto> ?du1)"
    from False step have s: "PerformActionOnSingleItem K rx item [c] funcs rec strat DelayedUpgrades
        = Inr (None, item, ?reg1, [])" by simp
    from Cons.prems have rest: "\<forall>c\<in>set cs. \<not> isResourceExcluded K item c" by simp
    have r1: "?reg1 (item_Name item) = Some ?du1" by simp
    have u1: "\<not> updating ?du1" using Cons.prems(4) by simp
    have d1: "distinct (map fst (configs ?du1))"
      using Cons.prems(5) False by (auto simp: map_of_eq_None_iff)
    have "\<exists>du'. deliver K rx funcs rec strat item cs ?reg1
             = Inr (?reg1(item_Name item \<mapsto> du'))
           \<and> \<not> updating du' \<and> distinct (map fst (configs du'))
           \<and> map_of (configs du') = map_of (configs ?du1 @ map (\<lambda>c. (ResourceName c, c)) cs)
           \<and> du'\<lparr>configs := configs ?du1\<rparr> = ?du1"
      using Cons.prems(1) rest r1 u1 d1 by (rule Cons.IH)
    then obtain du' where d: "deliver K rx funcs rec strat item cs ?reg1
             = Inr (?reg1(item_Name item \<mapsto> du'))"
      "\<not> updating du'" "distinct (map fst (configs du'))"
      "map_of (configs du') = map_of (configs ?du1 @ map (\<lambda>c. (ResourceName c, c)) cs)"
      "du'\<lparr>configs := configs ?du1\<rparr> = ?du1"
      by blast
    from d(5) have same: "du'\<lparr>configs := configs du\<rparr> = du"
      by (cases du, cases du') simp
    show ?thesis
    proof (intro exI[of _ du'] conjI)
      show "deliver K rx funcs rec strat item (c # cs) DelayedUpgrades
          = Inr (DelayedUpgrades(item_Name item \<mapsto> du'))"
        using s d(1) by simp
      show "map_of (configs du') = map_of (configs du @ map (\<lambda>c. (ResourceName c, c)) (c # cs))"
        using d(4) by simp
    qed (rule d(2) d(3) same)+
  qed
qed

text \<open>
  C2, as amended. For a workload with the delayed-upgrade annotation and no batch yet,
  after a non-empty sequence of changes, none excluded, the registry holds one pending
  batch for the workload whose map has distinct keys and associates each resource name
  with the first change received for that name: a later change to the same name is
  dropped.
\<close>

theorem pending_batch_keeps_first:
  assumes "Annotations item (DelayedUpgradeAnnotation K) \<noteq> None"
    and "\<forall>c\<in>set (c0 # cs). \<not> isResourceExcluded K item c"
    and "DelayedUpgrades (item_Name item) = None"
  shows "\<exists>du. deliver K rx funcs rec strat item (c0 # cs) DelayedUpgrades
             = Inr (DelayedUpgrades(item_Name item \<mapsto> du))
           \<and> \<not> updating du \<and> distinct (map fst (configs du))
           \<and> map_of (configs du) = firstReceived (c0 # cs)"
proof -
  let ?du0 = "\<lparr>ItemID = item_Name item, du_namespace = cfg_Namespace c0,
             configs = [(ResourceName c0, c0)], upgradeFuncs = funcs,
             recorder = rec, strategy = strat, updating = False\<rparr>"
  let ?reg0 = "DelayedUpgrades(item_Name item \<mapsto> ?du0)"
  from assms(2) have x: "\<not> isResourceExcluded K item c0"
    and rest: "\<forall>c\<in>set cs. \<not> isResourceExcluded K item c" by simp_all
  have s: "PerformActionOnSingleItem K rx item [c0] funcs rec strat DelayedUpgrades =
     Inr (None, item, ?reg0, [TimerStarted (item_Name item) debounceSeconds])"
    using x assms(1,3) by (rule single_deferred_new)
  have "\<exists>du'. deliver K rx funcs rec strat item cs ?reg0
             = Inr (?reg0(item_Name item \<mapsto> du'))
           \<and> \<not> updating du' \<and> distinct (map fst (configs du'))
           \<and> map_of (configs du') = map_of (configs ?du0 @ map (\<lambda>c. (ResourceName c, c)) cs)
           \<and> du'\<lparr>configs := configs ?du0\<rparr> = ?du0"
    using assms(1) rest by (rule deliver_pending) simp_all
  then obtain du' where d: "deliver K rx funcs rec strat item cs ?reg0
             = Inr (?reg0(item_Name item \<mapsto> du'))"
      "\<not> updating du'" "distinct (map fst (configs du'))"
      "map_of (configs du') = map_of (configs ?du0 @ map (\<lambda>c. (ResourceName c, c)) cs)"
    by blast
  show ?thesis
  proof (intro exI[of _ du'] conjI)
    show "deliver K rx funcs rec strat item (c0 # cs) DelayedUpgrades
          = Inr (DelayedUpgrades(item_Name item \<mapsto> du'))"
      using s d(1) by simp
    show "map_of (configs du') = firstReceived (c0 # cs)"
      using d(4) by (simp add: firstReceived_def)
  qed (rule d(2) d(3))+
qed
theorem pending_batch_keeps_first_witness:
  "Annotations delayedWeb (DelayedUpgradeAnnotation sampleOptions) \<noteq> None
   \<and> \<not> isResourceExcluded sampleOptions delayedWeb appConfig
   \<and> \<not> isResourceExcluded sampleOptions delayedWeb featureFlags
   \<and> \<not> isResourceExcluded sampleOptions delayedWeb (appConfig\<lparr>SHAValue := ''0a1b2c''\<rparr>)
   \<and> deliver sampleOptions sampleRegexp (deployments [delayedWeb]) True envVarStrategy delayedWeb
        [appConfig, featureFlags, appConfig\<lparr>SHAValue := ''0a1b2c''\<rparr>] Map.empty
       = Inr [''web'' \<mapsto> pendingBatch (deployments [delayedWeb]) [appConfig, featureFlags]]
   \<and> map_of (configs (pendingBatch (deployments [delayedWeb]) [appConfig, featureFlags]))
       = firstReceived [appConfig, featureFlags, appConfig\<lparr>SHAValue := ''0a1b2c''\<rparr>]
   \<and> firstReceived [appConfig, featureFlags, appConfig\<lparr>SHAValue := ''0a1b2c''\<rparr>] ''app-config''
       = Some appConfig"
proof -
  let ?late = "appConfig\<lparr>SHAValue := ''0a1b2c''\<rparr>"
  have a: "Annotations delayedWeb (DelayedUpgradeAnnotation sampleOptions) \<noteq> None"
    by (simp add: delayedWeb_def sample_defs)
  have x: "\<not> isResourceExcluded sampleOptions delayedWeb appConfig"
    "\<not> isResourceExcluded sampleOptions delayedWeb featureFlags"
    "\<not> isResourceExcluded sampleOptions delayedWeb ?late"
    by (simp_all add: isResourceExcluded_def delayedWeb_def sample_defs)
  then have xs: "\<forall>c\<in>set [appConfig, featureFlags, ?late]. \<not> isResourceExcluded sampleOptions delayedWeb c"
    by simp
  have e: "Map.empty (item_Name delayedWeb) = (None :: DelayedUpgrade option)" by simp
  have n: "item_Name delayedWeb = ''web''" by (simp add: delayedWeb_def sample_defs)
  have run: "deliver sampleOptions sampleRegexp (deployments [delayedWeb]) True envVarStrategy delayedWeb
        [appConfig, featureFlags, ?late] Map.empty
       = Inr [''web'' \<mapsto> pendingBatch (deployments [delayedWeb]) [appConfig, featureFlags]]"
    by (simp add: eval_defs flush_defs sample_defs debounceSeconds_def)
  have "\<exists>du. deliver sampleOptions sampleRegexp (deployments [delayedWeb]) True envVarStrategy delayedWeb
        [appConfig, featureFlags, ?late] Map.empty
             = Inr (Map.empty(item_Name delayedWeb \<mapsto> du))
           \<and> \<not> updating du \<and> distinct (map fst (configs du))
           \<and> map_of (configs du) = firstReceived [appConfig, featureFlags, ?late]"
    using a xs e by (rule pending_batch_keeps_first)
  then obtain du where du: "deliver sampleOptions sampleRegexp (deployments [delayedWeb]) True
        envVarStrategy delayedWeb [appConfig, featureFlags, ?late] Map.empty
             = Inr (Map.empty(item_Name delayedWeb \<mapsto> du))"
    "map_of (configs du) = firstReceived [appConfig, featureFlags, ?late]"
    by blast
  from du(1) run n have "[''web'' \<mapsto> du]
      = [''web'' \<mapsto> pendingBatch (deployments [delayedWeb]) [appConfig, featureFlags]]"
    by simp
  then have "du = pendingBatch (deployments [delayedWeb]) [appConfig, featureFlags]"
    by (metis map_upd_eqD1)
  with du(2) have m: "map_of (configs (pendingBatch (deployments [delayedWeb]) [appConfig, featureFlags]))
       = firstReceived [appConfig, featureFlags, ?late]"
    by simp
  have f: "firstReceived [appConfig, featureFlags, ?late] ''app-config'' = Some appConfig"
    by (simp add: firstReceived_def sample_defs)
  from a x run m f show ?thesis by simp
qed

text \<open>
  The claim as stated fails: after two changes to \<^verbatim>\<open>app-config\<close>, with content hashes
  \<^verbatim>\<open>def456\<close> and then \<^verbatim>\<open>0a1b2c\<close>, the pending batch holds the earlier hash.
\<close>

theorem pending_batch_latest_counterexample:
  "deliver sampleOptions sampleRegexp (deployments [delayedWeb]) True envVarStrategy delayedWeb
     [appConfig, appConfig\<lparr>SHAValue := ''0a1b2c''\<rparr>] Map.empty
     = Inr [''web'' \<mapsto> pendingBatch (deployments [delayedWeb]) [appConfig]]
   \<and> map_option SHAValue
       (map_of (configs (pendingBatch (deployments [delayedWeb]) [appConfig])) ''app-config'')
     = Some ''def456''
   \<and> ''def456'' \<noteq> ''0a1b2c''"
  by (simp add: eval_defs flush_defs sample_defs debounceSeconds_def)

subsection \<open>A change that arrives while the batch is being flushed\<close>

lemma isResourceExcluded_delayed_key:
  "isResourceExcluded (K\<lparr>DelayedUpgradeAnnotation := k\<rparr>) item config = isResourceExcluded K item config"
  by (simp add: isResourceExcluded_def)

lemma rules_delayed_key:
  "searchRule (K\<lparr>DelayedUpgradeAnnotation := k\<rparr>) = searchRule K"
  "autoReloadRule (K\<lparr>DelayedUpgradeAnnotation := k\<rparr>) = autoReloadRule K"
  "reloadAnnotations (K\<lparr>DelayedUpgradeAnnotation := k\<rparr>) = reloadAnnotations K"
  by (simp_all add: fun_eq_iff searchRule_def autoReloadRule_def reloadAnnotations_def
        readValues_def Let_def)

lemma evaluateRules_delayed_key:
  "evaluateRules (K\<lparr>DelayedUpgradeAnnotation := k\<rparr>) rx strat item config
     = evaluateRules K rx strat item config"
  by (simp only: evaluateRules_def rules_delayed_key)

lemma applyUpdate_delayed_key:
  "applyUpdate (K\<lparr>DelayedUpgradeAnnotation := k\<rparr>) funcs rec ls = applyUpdate K funcs rec ls"
  by (simp add: applyUpdate_def)

lemma configStep_firing:
  assumes "ls_registry ls (item_Name (ls_item ls)) = Some du" "updating du"
  shows "configStep K rx funcs rec strat config ls =
     (if isResourceExcluded K (ls_item ls) config then Inr (ls\<lparr>lastUpdatedConfig := config\<rparr>)
      else case evaluateRules K rx strat (ls_item ls) config of
             Inl p \<Rightarrow> Inl p
           | Inr (result, item', es) \<Rightarrow>
               Inr (ls\<lparr>lastUpdatedConfig := config, ls_item := item',
                      ls_effects := ls_effects ls @ es,
                      atLeastOneUpdate :=
                        (if result = Updated then Some Updated else atLeastOneUpdate ls)\<rparr>))"
proof (cases "isResourceExcluded K (ls_item ls) config")
  case True
  then show ?thesis by (simp add: configStep_excluded)
next
  case False
  moreover have "\<not> deferred K (ls_item ls) (ls_registry ls)"
    using assms by (simp add: deferred_def)
  ultimately show ?thesis by (simp add: configStep_evaluated)
qed

lemma configStep_no_annotation:
  assumes "Annotations (ls_item ls) (DelayedUpgradeAnnotation K) = None"
  shows "configStep K rx funcs rec strat config ls =
     (if isResourceExcluded K (ls_item ls) config then Inr (ls\<lparr>lastUpdatedConfig := config\<rparr>)
      else case evaluateRules K rx strat (ls_item ls) config of
             Inl p \<Rightarrow> Inl p
           | Inr (result, item', es) \<Rightarrow>
               Inr (ls\<lparr>lastUpdatedConfig := config, ls_item := item',
                      ls_effects := ls_effects ls @ es,
                      atLeastOneUpdate :=
                        (if result = Updated then Some Updated else atLeastOneUpdate ls)\<rparr>))"
proof (cases "isResourceExcluded K (ls_item ls) config")
  case True
  then show ?thesis by (simp add: configStep_excluded)
next
  case False
  moreover have "\<not> deferred K (ls_item ls) (ls_registry ls)"
    using assms by (simp add: deferred_def)
  ultimately show ?thesis by (simp add: configStep_evaluated)
qed

lemma configStep_registry_firing:
  assumes "ls_registry ls (item_Name (ls_item ls)) = Some du" "updating du"
    and "configStep K rx funcs rec strat config ls = Inr ls'"
  shows "ls_registry ls' = ls_registry ls"
  using assms(3) unfolding configStep_firing[OF assms(1,2)]
  by (auto split: if_splits sum.splits)

text \<open>
  C3, as amended. When a change arrives for a workload whose batch is being flushed
  (\<open>updating\<close> is set), it is not merged into the batch and the registry is left as it
  is; the change is evaluated at once: the call returns what it returns when the
  delayed-upgrade annotation is not found on the workload (here: when the option names a
  key \<open>k\<close> that the workload does not carry), so the rules run, the strategy may write to
  the workload and the update function may be called.
\<close>

theorem change_while_firing_is_evaluated:
  assumes "DelayedUpgrades (item_Name item) = Some du" "updating du"
    and "Annotations item k = None"
  shows "PerformActionOnSingleItem K rx item [config] funcs rec strat DelayedUpgrades
           = PerformActionOnSingleItem (K\<lparr>DelayedUpgradeAnnotation := k\<rparr>) rx item [config] funcs rec
               strat DelayedUpgrades
       \<and> (\<forall>err item' DelayedUpgrades' es.
             PerformActionOnSingleItem K rx item [config] funcs rec strat DelayedUpgrades
               = Inr (err, item', DelayedUpgrades', es)
             \<longrightarrow> DelayedUpgrades' = DelayedUpgrades)"
proof -
  let ?ls = "\<lparr>ls_item = item, ls_registry = DelayedUpgrades, ls_effects = [],
              atLeastOneUpdate = None, lastUpdatedConfig = zeroConfig\<rparr>"
  have f: "ls_registry ?ls (item_Name (ls_item ?ls)) = Some du" using assms(1) by simp
  have n: "Annotations (ls_item ?ls) (DelayedUpgradeAnnotation (K\<lparr>DelayedUpgradeAnnotation := k\<rparr>)) = None"
    using assms(3) by simp
  have "configStep K rx funcs rec strat config ?ls
      = configStep (K\<lparr>DelayedUpgradeAnnotation := k\<rparr>) rx funcs rec strat config ?ls"
    unfolding configStep_firing[OF f assms(2)] configStep_no_annotation[OF n]
    by (simp only: isResourceExcluded_delayed_key evaluateRules_delayed_key)
  then have 1: "PerformActionOnSingleItem K rx item [config] funcs rec strat DelayedUpgrades
           = PerformActionOnSingleItem (K\<lparr>DelayedUpgradeAnnotation := k\<rparr>) rx item [config] funcs rec
               strat DelayedUpgrades"
    by (simp only: PerformActionOnSingleItem_single applyUpdate_delayed_key)
  have 2: "DelayedUpgrades' = DelayedUpgrades"
    if "PerformActionOnSingleItem K rx item [config] funcs rec strat DelayedUpgrades
               = Inr (err, item', DelayedUpgrades', es)" for err item' DelayedUpgrades' es
  proof -
    from that obtain ls' where s: "configStep K rx funcs rec strat config ?ls = Inr ls'"
      and r: "DelayedUpgrades' = ls_registry ls'"
      by (rule PerformActionOnSingleItem_single_Inr)
    from configStep_registry_firing[OF f assms(2) s] r show ?thesis by simp
  qed
  from 1 2 show ?thesis by blast
qed

text \<open>
  The claim as stated fails: with the batch of the sample deployment being flushed, a
  change of \<^verbatim>\<open>app-config\<close> is not dropped. The strategy is called, the container gets
  the env variable and the update function is called.
\<close>

theorem change_while_firing_counterexample:
  "PerformActionOnSingleItem sampleOptions sampleRegexp delayedWeb [appConfig]
     (deployments [delayedWeb]) True envVarStrategy
     [''web'' \<mapsto> (pendingBatch (deployments [delayedWeb]) [featureFlags])\<lparr>updating := True\<rparr>]
   = Inr (None, delayedWeb\<lparr>Containers := [reloadedContainer]\<rparr>,
       [''web'' \<mapsto> (pendingBatch (deployments [delayedWeb]) [featureFlags])\<lparr>updating := True\<rparr>],
       [StrategyInvoked AutoReload appConfig True Updated,
        UpdateCalled ''default'' (delayedWeb\<lparr>Containers := [reloadedContainer]\<rparr>) None,
        MetricReloaded True, MetricReloadedByNamespace True ''default'', EventRecorded ''Reloaded''])
   \<and> Containers (delayedWeb\<lparr>Containers := [reloadedContainer]\<rparr>) \<noteq> Containers delayedWeb"
  by (simp add: eval_defs flush_defs sample_defs)

theorem change_while_firing_is_evaluated_witness:
  "[''web'' \<mapsto> (pendingBatch (deployments [delayedWeb]) [featureFlags])\<lparr>updating := True\<rparr>]
      (item_Name delayedWeb)
     = Some ((pendingBatch (deployments [delayedWeb]) [featureFlags])\<lparr>updating := True\<rparr>)
   \<and> updating ((pendingBatch (deployments [delayedWeb]) [featureFlags])\<lparr>updating := True\<rparr>)
   \<and> Annotations delayedWeb ''none'' = None
   \<and> PerformActionOnSingleItem (sampleOptions\<lparr>DelayedUpgradeAnnotation := ''none''\<rparr>) sampleRegexp
        delayedWeb [appConfig] (deployments [delayedWeb]) True envVarStrategy
        [''web'' \<mapsto> (pendingBatch (deployments [delayedWeb]) [featureFlags])\<lparr>updating := True\<rparr>]
      = Inr (None, delayedWeb\<lparr>Containers := [reloadedContainer]\<rparr>,
          [''web'' \<mapsto> (pendingBatch (deployments [delayedWeb]) [featureFlags])\<lparr>updating := True\<rparr>],
          [StrategyInvoked AutoReload appConfig True Updated,
           UpdateCalled ''default'' (delayedWeb\<lparr>Containers := [reloadedContainer]\<rparr>) None,
           MetricReloaded True, MetricReloadedByNamespace True ''default'', EventRecorded ''Reloaded''])"
proof -
  let ?du = "(pendingBatch (deployments [delayedWeb]) [featureFlags])\<lparr>updating := True\<rparr>"
  have a: "[''web'' \<mapsto> ?du] (item_Name delayedWeb) = Some ?du"
    by (simp add: delayedWeb_def sample_defs)
  have b: "updating ?du" by simp
  have c: "Annotations delayedWeb ''none'' = None"
    by (simp add: delayedWeb_def sample_defs)
  have run: "PerformActionOnSingleItem sampleOptions sampleRegexp delayedWeb [appConfig]
     (deployments [delayedWeb]) True envVarStrategy [''web'' \<mapsto> ?du]
   = Inr (None, delayedWeb\<lparr>Containers := [reloadedContainer]\<rparr>, [''web'' \<mapsto> ?du],
       [StrategyInvoked AutoReload appConfig True Updated,
        UpdateCalled ''default'' (delayedWeb\<lparr>Containers := [reloadedContainer]\<rparr>) None,
        MetricReloaded True, MetricReloadedByNamespace True ''default'', EventRecorded ''Reloaded''])"
    by (simp add: eval_defs flush_defs sample_defs)
  have "PerformActionOnSingleItem sampleOptions sampleRegexp delayedWeb [appConfig]
           (deployments [delayedWeb]) True envVarStrategy [''web'' \<mapsto> ?du]
        = PerformActionOnSingleItem (sampleOptions\<lparr>DelayedUpgradeAnnotation := ''none''\<rparr>) sampleRegexp
           delayedWeb [appConfig] (deployments [delayedWeb]) True envVarStrategy [''web'' \<mapsto> ?du]"
    using change_while_firing_is_evaluated[where DelayedUpgrades = "[''web'' \<mapsto> ?du]"
        and item = delayedWeb and du = ?du and k = "''none''", OF a b c]
    by blast
  with run a b c show ?thesis by simp
qed

subsection \<open>One update call per evaluation\<close>












subsection \<open>Two changes, one flush\<close>




end
